theory Spec2Isabelle
  imports Main
begin

section \<open>JavaScript strings\<close>

text \<open>
  A JavaScript string is a sequence of UTF-16 code units. A code unit is modelled as a
  natural number, so that \<open>length\<close> counts what \<open>String.prototype.length\<close> counts
  and the characters beyond ASCII that the messages of the audit contain (the en dash,
  8211, and the ellipsis, 8230) are single units. \<open>js\<close> reads an ASCII literal.
\<close>

type_synonym jchar = nat
type_synonym jstring = "jchar list"

definition js :: "string \<Rightarrow> jstring" where
  "js s = map of_char s"

text \<open>\<open>WhiteSpace\<close> and \<open>LineTerminator\<close> of ECMAScript: what \<open>trim\<close> strips and
  what \<open>\s\<close> matches.\<close>

definition isWhiteSpace :: "jchar \<Rightarrow> bool" where
  "isWhiteSpace c \<longleftrightarrow>
     c \<in> set [9, 10, 11, 12, 13, 32, 160, 5760, 8232, 8233, 8239, 8287, 12288, 65279]
     \<or> (8192 \<le> c \<and> c \<le> 8202)"

definition trim :: "jstring \<Rightarrow> jstring" where
  "trim s = rev (dropWhile isWhiteSpace (rev (dropWhile isWhiteSpace s)))"

text \<open>ASCII lower case: the letters A to Z are mapped, every other code unit is left as it
  is. This is what a selector applies to a tag name, and what \<open>toLowerCase\<close> does to a
  string of ASCII characters.\<close>

definition lower_unit :: "jchar \<Rightarrow> jchar" where
  "lower_unit c = (if 65 \<le> c \<and> c \<le> 90 then c + 32 else c)"

definition asciiLower :: "jstring \<Rightarrow> jstring" where
  "asciiLower s = map lower_unit s"

definition upper_unit :: "jchar \<Rightarrow> jchar" where
  "upper_unit c = (if 97 \<le> c \<and> c \<le> 122 then c - 32 else c)"

definition isAsciiAlnum :: "jchar \<Rightarrow> bool" where
  "isAsciiAlnum c \<longleftrightarrow> (48 \<le> c \<and> c \<le> 57) \<or> (65 \<le> c \<and> c \<le> 90) \<or> (97 \<le> c \<and> c \<le> 122)"

text \<open>\<open>s.slice(a, b)\<close>, with the negative offsets of JavaScript.\<close>

definition slice :: "jstring \<Rightarrow> int \<Rightarrow> int \<Rightarrow> jstring" where
  "slice s a b =
     (let n = int (length s);
          k = (if a < 0 then max (n + a) 0 else min a n);
          e = (if b < 0 then max (n + b) 0 else min b n)
      in take (nat (e - k)) (drop (nat k) s))"

definition startsWith :: "jstring \<Rightarrow> jstring \<Rightarrow> bool" where
  "startsWith s q \<longleftrightarrow> take (length q) s = q"

text \<open>\<open>s.indexOf(q)\<close>: the index of the first occurrence of \<open>q\<close>, or \<open>-1\<close>.\<close>

fun indexOf_at :: "jstring \<Rightarrow> jstring \<Rightarrow> int \<Rightarrow> int" where
  "indexOf_at [] q i = (if q = [] then i else - 1)"
| "indexOf_at (c # s) q i = (if startsWith (c # s) q then i else indexOf_at s q (i + 1))"

definition indexOf :: "jstring \<Rightarrow> jstring \<Rightarrow> int" where
  "indexOf s q = indexOf_at s q 0"

text \<open>\<open>s.lastIndexOf(c)\<close> for a search string of one code unit: the index of its last
  occurrence, or \<open>-1\<close>.\<close>

fun lastIndexOf_at :: "jstring \<Rightarrow> jchar \<Rightarrow> int \<Rightarrow> int \<Rightarrow> int" where
  "lastIndexOf_at [] c i found = found"
| "lastIndexOf_at (x # s) c i found = lastIndexOf_at s c (i + 1) (if x = c then i else found)"

definition lastIndexOf :: "jstring \<Rightarrow> jchar \<Rightarrow> int" where
  "lastIndexOf s c = lastIndexOf_at s c 0 (- 1)"

text \<open>\<open>s.split(/\r\n|\r|\n/)\<close>: the pieces between the line breaks; \<open>\r\n\<close> is tried
  first, so it is one separator.\<close>

fun split_lines :: "jstring \<Rightarrow> jstring list" where
  "split_lines [] = [[]]"
| "split_lines [c] = (if c = 13 \<or> c = 10 then [[], []] else [[c]])"
| "split_lines (c # d # s) =
     (if c = 13 \<and> d = 10 then [] # split_lines s
      else if c = 13 \<or> c = 10 then [] # split_lines (d # s)
      else (case split_lines (d # s) of h # t \<Rightarrow> (c # h) # t | [] \<Rightarrow> [[c]]))"

text \<open>\<open>s.split(/\s+/)\<close>: the pieces between the maximal runs of white space.\<close>

function split_ws :: "jstring \<Rightarrow> jstring list" where
  "split_ws [] = [[]]"
| "split_ws (c # s) =
     (if isWhiteSpace c then [] # split_ws (dropWhile isWhiteSpace s)
      else (case split_ws s of h # t \<Rightarrow> (c # h) # t | [] \<Rightarrow> [[c]]))"
  by pat_completeness auto
termination
  by (relation "measure length") (auto simp: length_dropWhile_le less_Suc_eq_le)

text \<open>\<open>s.replace(/\s+/g, " ")\<close>: every maximal run of white space becomes one space.\<close>

function collapse_ws :: "jstring \<Rightarrow> jstring" where
  "collapse_ws [] = []"
| "collapse_ws (c # s) =
     (if isWhiteSpace c then 32 # collapse_ws (dropWhile isWhiteSpace s)
      else c # collapse_ws s)"
  by pat_completeness auto
termination
  by (relation "measure length") (auto simp: length_dropWhile_le less_Suc_eq_le)

text \<open>Whether \<open>q\<close> occurs in \<open>s\<close>: \<open>/(q)/.test(s)\<close> for a literal \<open>q\<close>.\<close>

definition includes_str :: "jstring \<Rightarrow> jstring \<Rightarrow> bool" where
  "includes_str s q \<longleftrightarrow> 0 \<le> indexOf s q"

text \<open>The decimal digits of a number, as a template literal prints it.\<close>

fun decimal :: "nat \<Rightarrow> jstring" where
  "decimal n = (if n < 10 then [48 + n] else decimal (n div 10) @ [48 + n mod 10])"

declare decimal.simps [simp del]

text \<open>\<open>x || ""\<close> on a value that is a string, \<open>null\<close> or \<open>undefined\<close>.\<close>

definition orEmpty :: "jstring option \<Rightarrow> jstring" where
  "orEmpty v = (case v of Some s \<Rightarrow> s | None \<Rightarrow> [])"

section \<open>The document tree\<close>

text \<open>
  The audit reads the tree that \<open>DOMParser\<close> builds: elements with a tag name, attributes
  and child nodes, text and comments. \<open>elements_of\<close> lists an element and its descendant
  elements in document order, the order of \<open>querySelectorAll\<close>.
\<close>

datatype element = Element (tagName: jstring) (attributes: "(jstring \<times> jstring) list")
    (childNodes: "node list")
  and node = ElementNode element | TextNode jstring | CommentNode jstring

datatype document = Document (documentElement: element)

definition getAttribute :: "element \<Rightarrow> jstring \<Rightarrow> jstring option" where
  "getAttribute el name = map_of (attributes el) name"

fun elements_of :: "element \<Rightarrow> element list"
  and elements_of_nodes :: "node list \<Rightarrow> element list" where
  "elements_of (Element t a cs) = Element t a cs # elements_of_nodes cs"
| "elements_of_nodes [] = []"
| "elements_of_nodes (ElementNode e # ns) = elements_of e @ elements_of_nodes ns"
| "elements_of_nodes (TextNode s # ns) = elements_of_nodes ns"
| "elements_of_nodes (CommentNode s # ns) = elements_of_nodes ns"

fun textContent :: "element \<Rightarrow> jstring"
  and textContent_nodes :: "node list \<Rightarrow> jstring" where
  "textContent (Element t a cs) = textContent_nodes cs"
| "textContent_nodes [] = []"
| "textContent_nodes (ElementNode e # ns) = textContent e @ textContent_nodes ns"
| "textContent_nodes (TextNode s # ns) = s @ textContent_nodes ns"
| "textContent_nodes (CommentNode s # ns) = textContent_nodes ns"

fun childElements :: "node list \<Rightarrow> element list" where
  "childElements [] = []"
| "childElements (ElementNode e # ns) = e # childElements ns"
| "childElements (TextNode s # ns) = childElements ns"
| "childElements (CommentNode s # ns) = childElements ns"

text \<open>A type selector such as \<open>title\<close> matches a tag name whatever its letter case.\<close>

definition hasTag :: "string \<Rightarrow> element \<Rightarrow> bool" where
  "hasTag t el \<longleftrightarrow> asciiLower (tagName el) = js t"

text \<open>\<open>tag[name="value"]\<close>, the value compared as it is written.\<close>

definition hasTagAttr :: "string \<Rightarrow> string \<Rightarrow> string \<Rightarrow> element \<Rightarrow> bool" where
  "hasTagAttr t k v el \<longleftrightarrow> hasTag t el \<and> getAttribute el (js k) = Some (js v)"

text \<open>\<open>link[rel="canonical"]\<close>: HTML compares the value of \<open>rel\<close> without regard to
  ASCII letter case.\<close>

definition isCanonicalLink :: "element \<Rightarrow> bool" where
  "isCanonicalLink el \<longleftrightarrow>
     hasTag ''link'' el \<and>
     (case getAttribute el (js ''rel'') of
        Some r \<Rightarrow> asciiLower r = js ''canonical'' | None \<Rightarrow> False)"

definition querySelectorAll :: "document \<Rightarrow> (element \<Rightarrow> bool) \<Rightarrow> element list" where
  "querySelectorAll doc sel = filter sel (elements_of (documentElement doc))"

definition querySelector :: "document \<Rightarrow> (element \<Rightarrow> bool) \<Rightarrow> element option" where
  "querySelector doc sel = find sel (elements_of (documentElement doc))"

text \<open>\<open>doc.head\<close> is the first \<open>head\<close> child of the \<open>html\<close> root, \<open>doc.body\<close> its
  first \<open>body\<close> or \<open>frameset\<close> child; both are \<open>null\<close> when there is none.\<close>

definition head :: "document \<Rightarrow> element option" where
  "head doc =
     (if hasTag ''html'' (documentElement doc)
      then find (hasTag ''head'') (childElements (childNodes (documentElement doc)))
      else None)"

definition body :: "document \<Rightarrow> element option" where
  "body doc =
     (if hasTag ''html'' (documentElement doc)
      then find (\<lambda>e. hasTag ''body'' e \<or> hasTag ''frameset'' e)
             (childElements (childNodes (documentElement doc)))
      else None)"

section \<open>Findings and the platform\<close>

datatype severity = Success | Warning | Error

text \<open>\<open>AuditResult\<close>: an optional field that is \<open>undefined\<close> is \<open>None\<close>.\<close>

record finding =
  id_key :: jstring
  severity :: severity
  message :: jstring
  selector :: "jstring option"
  line :: "int option"
  column :: "int option"
  snippet :: "jstring option"
  recommendation :: "jstring option"

record locator =
  loc_line :: "int option"
  loc_column :: "int option"
  loc_snippet :: "jstring option"

definition empty_locator :: locator where
  "empty_locator = \<lparr>loc_line = None, loc_column = None, loc_snippet = None\<rparr>"

datatype exn = SyntaxError

text \<open>What \<open>new RegExp(pattern, flags)\<close> followed by \<open>html.search(re)\<close> comes to: the
  constructor throws, or the search finds no match (\<open>-1\<close>), or it gives the index of the
  first match.\<close>

datatype search_result = Throws | NoMatch | Found nat

text \<open>
  The audit runs on a browser. What it takes from it, which is not code of the repository
  and which the model does not settle itself, is a parameter of the model:
  \<^item> \<open>regexp_engine pattern flags html\<close>: \<open>new RegExp(pattern, flags)\<close> and
    \<open>html.search(re)\<close>, for the patterns and flags the engine below does not read;
  \<^item> \<open>unit_toUpperCase c\<close>: the upper case of a code unit beyond ASCII, when that is one
    code unit, else the code unit itself (the regular expressions compare letters by it);
  \<^item> \<open>unicode_toLowerCase s\<close>: \<open>s.toLowerCase()\<close> for a string with a character beyond
    ASCII;
  \<^item> \<open>parseFromString html\<close>: \<open>new DOMParser().parseFromString(html, "text/html")\<close>;
  \<^item> \<open>selector_engine doc text\<close>: \<open>doc.querySelector(text)\<close> for a selector text whose
    outcome the model does not settle itself;
  \<^item> \<open>href_property el\<close>: the value of \<open>el.href\<close> for an element with an \<open>href\<close>
    attribute (the empty string when the element has no such property).
\<close>

record platform =
  regexp_engine :: "jstring \<Rightarrow> jstring \<Rightarrow> jstring \<Rightarrow> search_result"
  unit_toUpperCase :: "jchar \<Rightarrow> jchar"
  unicode_toLowerCase :: "jstring \<Rightarrow> jstring"
  parseFromString :: "jstring \<Rightarrow> document"
  selector_engine :: "document \<Rightarrow> jstring \<Rightarrow> exn + element option"
  href_property :: "element \<Rightarrow> jstring"

text \<open>\<open>s.toLowerCase()\<close>: on ASCII it maps the letters A to Z; a string with a character
  beyond ASCII is left to the platform.\<close>

definition toLowerCase :: "platform \<Rightarrow> jstring \<Rightarrow> jstring" where
  "toLowerCase P s =
     (if list_all (\<lambda>c. c < 128) s then asciiLower s else unicode_toLowerCase P s)"

section \<open>Regular expressions\<close>

text \<open>
  \<open>new RegExp(pattern, "i")\<close> and \<open>html.search(re)\<close>. The model reads the part of the
  pattern syntax of ECMAScript that it needs and leaves every other pattern, and every
  other flag, to the platform:
  \<^item> a character that is no syntax character stands for itself, and so does a syntax
    character after a backslash;
  \<^item> \<open>\s\<close> is a white space character, \<open>\b\<close> a word boundary, \<open>[^>]\<close> any character
    but the greater-than sign, \<open>["']\<close> one of the two quotation marks;
  \<^item> a star after one of these repeats it any number of times.
  With the flag \<open>i\<close> two characters are the same when their canonical forms are: the
  upper case for a letter a to z, and for a code unit beyond ASCII its upper case unless
  that is an ASCII character. \<open>search\<close> gives the least index at which a match starts.
\<close>

text \<open>\<open>SyntaxCharacter\<close> of ECMAScript; 92 is the backslash.\<close>

definition isSyntaxCharacter :: "jchar \<Rightarrow> bool" where
  "isSyntaxCharacter c \<longleftrightarrow> c \<in> set (js ''^$.*+?()[]{}|'') \<or> c = 92"

datatype rx_atom = Lit jchar | Space | NotGt | Quote

datatype rx_item = One rx_atom | Star rx_atom | WordBoundary

definition canonicalize :: "platform \<Rightarrow> jchar \<Rightarrow> jchar" where
  "canonicalize P c =
     (if c < 128 then upper_unit c
      else (let cu = unit_toUpperCase P c in if cu < 128 then c else cu))"

fun atom_matches :: "platform \<Rightarrow> rx_atom \<Rightarrow> jchar \<Rightarrow> bool" where
  "atom_matches P (Lit l) c = (canonicalize P l = canonicalize P c)"
| "atom_matches P Space c = isWhiteSpace c"
| "atom_matches P NotGt c = (c \<noteq> 62)"
| "atom_matches P Quote c = (c = 34 \<or> c = 39)"

definition isWordChar :: "jchar option \<Rightarrow> bool" where
  "isWordChar c = (case c of Some x \<Rightarrow> isAsciiAlnum x \<or> x = 95 | None \<Rightarrow> False)"

text \<open>One atom at the front of a pattern, with what follows it.\<close>

definition next_atom :: "jstring \<Rightarrow> (rx_atom \<times> jstring) option" where
  "next_atom p =
     (case p of
        [] \<Rightarrow> None
      | c # r \<Rightarrow>
          if c = 92 then
            (case r of
               [] \<Rightarrow> None
             | d # r' \<Rightarrow> if d = 115 then Some (Space, r')
                         else if isSyntaxCharacter d then Some (Lit d, r') else None)
          else if startsWith p (js ''[^>]'') then Some (NotGt, drop 4 p)
          else if startsWith p ([91, 34, 39, 93]) then Some (Quote, drop 4 p)
          else if isSyntaxCharacter c then None
          else Some (Lit c, r))"

function parse_rx :: "jstring \<Rightarrow> rx_item list option" where
  "parse_rx p =
     (if p = [] then Some []
      else if startsWith p [92, 98] then map_option (Cons WordBoundary) (parse_rx (drop 2 p))
      else (case next_atom p of
              None \<Rightarrow> None
            | Some (a, r) \<Rightarrow>
                (case r of
                   [] \<Rightarrow> Some [One a]
                 | c # r' \<Rightarrow> if c = 42 then map_option (Cons (Star a)) (parse_rx r')
                             else map_option (Cons (One a)) (parse_rx r))))"
  by pat_completeness auto

lemma next_atom_shorter: "next_atom p = Some (a, r) \<Longrightarrow> length r < length p"
  by (auto simp: next_atom_def split: list.splits if_splits)

termination parse_rx
proof (relation "measure length", goal_cases)
  case 1
  show ?case by simp
next
  case (2 p)
  then show ?case by (cases p) auto
next
  case (3 p x2 a r c r')
  then show ?case using next_atom_shorter [of p a r] by simp
next
  case (4 p x2 a r c r')
  then show ?case using next_atom_shorter [of p a r] by simp
qed

declare parse_rx.simps [simp del]

text \<open>Whether the items match a prefix of the text; \<open>prev\<close> is the code unit before
  it, for \<open>\b\<close>.\<close>

fun matches_here :: "platform \<Rightarrow> rx_item list \<Rightarrow> jchar option \<Rightarrow> jstring \<Rightarrow> bool" where
  "matches_here P [] prev s = True"
| "matches_here P (One a # its) prev [] = False"
| "matches_here P (One a # its) prev (c # s) =
     (if atom_matches P a c then matches_here P its (Some c) s else False)"
| "matches_here P (Star a # its) prev [] = matches_here P its prev []"
| "matches_here P (Star a # its) prev (c # s) =
     (if matches_here P its prev (c # s) then True
      else if atom_matches P a c then matches_here P (Star a # its) (Some c) s else False)"
| "matches_here P (WordBoundary # its) prev s =
     (if isWordChar prev \<noteq> isWordChar (case s of c # _ \<Rightarrow> Some c | [] \<Rightarrow> None)
      then matches_here P its prev s else False)"

fun search_from ::
    "platform \<Rightarrow> rx_item list \<Rightarrow> jchar option \<Rightarrow> jstring \<Rightarrow> nat \<Rightarrow> search_result" where
  "search_from P its prev [] i = (if matches_here P its prev [] then Found i else NoMatch)"
| "search_from P its prev (c # s) i =
     (if matches_here P its prev (c # s) then Found i
      else search_from P its (Some c) s (i + 1))"

definition RegExp_search :: "platform \<Rightarrow> jstring \<Rightarrow> jstring \<Rightarrow> jstring \<Rightarrow> search_result" where
  "RegExp_search P pattern flags html =
     (if flags = js ''i''
      then (case parse_rx pattern of
              Some its \<Rightarrow> search_from P its None html 0
            | None \<Rightarrow> regexp_engine P pattern flags html)
      else regexp_engine P pattern flags html)"

section \<open>Selector deriver\<close>

definition cssSelector :: "platform \<Rightarrow> element \<Rightarrow> jstring" where
  "cssSelector P el =
     (let name = toLowerCase P (tagName el);
          id = orEmpty (getAttribute el (js ''id''));
          cls = filter (\<lambda>t. t \<noteq> []) (split_ws (trim (orEmpty (getAttribute el (js ''class'')))))
      in if id \<noteq> [] then name @ js ''#'' @ id
         else (case cls of c # _ \<Rightarrow> name @ js ''.'' @ c | [] \<Rightarrow> name))"

section \<open>Text locator\<close>

text \<open>The characters that \<open>/[.*+?^${}()|[\]\\]/g\<close> matches; 92 is the backslash.\<close>

definition isRegexMeta :: "jchar \<Rightarrow> bool" where
  "isRegexMeta c \<longleftrightarrow> c \<in> set (js ''.*+?^${}()|[]'') \<or> c = 92"

text \<open>\<open>v.replace(/[.*+?^${}()|[\]\\]/g, "\\$&")\<close>: a backslash before each of them.\<close>

definition escapeRegExp :: "jstring \<Rightarrow> jstring" where
  "escapeRegExp v = concat (map (\<lambda>c. if isRegexMeta c then [92, c] else [c]) v)"

text \<open>\<open>v && v.trim()\<close> on an attribute value.\<close>

definition usable :: "jstring option \<Rightarrow> bool" where
  "usable v \<longleftrightarrow> (case v of Some s \<Rightarrow> s \<noteq> [] \<and> trim s \<noteq> [] | None \<Rightarrow> False)"

definition candidate_attrs :: "element \<Rightarrow> (jstring \<times> jstring option) list" where
  "candidate_attrs el =
     [(js ''id'', getAttribute el (js ''id'')),
      (js ''name'', getAttribute el (js ''name'')),
      (js ''property'', getAttribute el (js ''property'')),
      (js ''rel'', getAttribute el (js ''rel'')),
      (js ''href'', getAttribute el (js ''href'')),
      (js ''src'', getAttribute el (js ''src''))]"

text \<open>The pattern with an attribute is \<^verbatim>\<open><\s*TAG[^>]*\bKEY\s*=\s*["']VALUE["'][^>]*>\<close>,
  the fallback is \<^verbatim>\<open><\s*TAG\b[^>]*>\<close>.\<close>

definition attr_pattern :: "jstring \<Rightarrow> jstring \<Rightarrow> jstring \<Rightarrow> jstring" where
  "attr_pattern tn k safeV =
     js ''<'' @ [92] @ js ''s*'' @ tn @ js ''[^>]*'' @ [92] @ js ''b'' @ k
     @ [92] @ js ''s*='' @ [92] @ js ''s*['' @ [34, 39] @ js '']'' @ safeV
     @ js ''['' @ [34, 39] @ js ''][^>]*>''"

definition tag_pattern :: "jstring \<Rightarrow> jstring" where
  "tag_pattern tn = js ''<'' @ [92] @ js ''s*'' @ tn @ [92] @ js ''b[^>]*>''"

text \<open>Lines 54 to 76 of \<open>locateElement\<close>: the pattern it searches for.\<close>

definition locate_pattern :: "platform \<Rightarrow> element \<Rightarrow> jstring" where
  "locate_pattern P el =
     (let tn = toLowerCase P (tagName el) in
      case find (\<lambda>(k, v). usable v) (candidate_attrs el) of
        Some (k, Some v) \<Rightarrow> attr_pattern tn k (escapeRegExp v)
      | _ \<Rightarrow> tag_pattern tn)"

definition locateElement :: "platform \<Rightarrow> element \<Rightarrow> jstring \<Rightarrow> locator" where
  "locateElement P el html =
     (case RegExp_search P (locate_pattern P el) (js ''i'') html of
        Found i \<Rightarrow>
          (let idx = int i;
               pre = slice html 0 idx;
               ln = int (length (split_lines pre));
               lastLineStart = max (lastIndexOf pre 10) (lastIndexOf pre 13);
               col = idx - (if lastLineStart \<ge> 0 then lastLineStart else - 1);
               snip = slice html (max 0 (idx - 120)) (min (int (length html)) (idx + 240))
           in \<lparr>loc_line = Some ln, loc_column = Some col, loc_snippet = Some snip\<rparr>)
      | NoMatch \<Rightarrow> empty_locator
      | Throws \<Rightarrow> empty_locator)"

definition locateQuery :: "jstring \<Rightarrow> jstring \<Rightarrow> locator" where
  "locateQuery html query =
     (let idx = indexOf html query in
      if idx < 0 then empty_locator
      else
        (let pre = slice html 0 idx;
             ln = int (length (split_lines pre));
             lastLineStart = max (lastIndexOf pre 10) (lastIndexOf pre 13);
             col = idx - (if lastLineStart \<ge> 0 then lastLineStart else - 1);
             snip = slice html (max 0 (idx - 120))
                      (min (int (length html)) (idx + int (length query) + 120))
         in \<lparr>loc_line = Some ln, loc_column = Some col, loc_snippet = Some snip\<rparr>))"

section \<open>Finding emitter\<close>

text \<open>The object that \<open>push\<close> builds. A node goes before a query; an empty query is
  falsy and starts no search.\<close>

definition emitted :: "platform \<Rightarrow> jstring \<Rightarrow> severity \<Rightarrow> jstring \<Rightarrow> jstring \<Rightarrow>
    element option \<Rightarrow> jstring option \<Rightarrow> jstring option \<Rightarrow> finding" where
  "emitted P html sev i msg el rec queryForLocate =
     (let loc = (case el of
                   Some e \<Rightarrow> locateElement P e html
                 | None \<Rightarrow>
                     (case queryForLocate of
                        Some q \<Rightarrow> if q \<noteq> [] then locateQuery html q else empty_locator
                      | None \<Rightarrow> empty_locator))
      in \<lparr>id_key = i, severity = sev, message = msg,
          selector = map_option (cssSelector P) el,
          line = loc_line loc, column = loc_column loc,
          snippet = map_option trim (loc_snippet loc),
          recommendation = rec\<rparr>)"

text \<open>\<open>push\<close> appends to \<open>out\<close>, which the model passes in and gets back.\<close>

definition push :: "platform \<Rightarrow> jstring \<Rightarrow> finding list \<Rightarrow> severity \<Rightarrow> jstring \<Rightarrow> jstring \<Rightarrow>
    element option \<Rightarrow> jstring option \<Rightarrow> jstring option \<Rightarrow> finding list" where
  "push P html out sev i msg el rec queryForLocate =
     out @ [emitted P html sev i msg el rec queryForLocate]"

section \<open>Rule engine\<close>

subsection \<open>Document language\<close>

definition check_lang :: "platform \<Rightarrow> jstring \<Rightarrow> document \<Rightarrow> finding list \<Rightarrow> finding list" where
  \<open>check_lang P html doc out =
     (let htmlEl = documentElement doc;
          lang = orEmpty (map_option trim (getAttribute htmlEl (js ''lang'')))
      in if lang = []
         then push P html out Error (js ''lang-missing'') (js ''Missing <html lang>.'')
                (Some htmlEl)
                (Some (js ''Set the <html lang> attribute, e.g., <html lang="en">.'')) None
         else push P html out Success (js ''lang-ok'')
                (js ''HTML lang present ('' @ lang @ js '').'') (Some htmlEl) None None)\<close>

subsection \<open>Title\<close>

definition check_title :: "platform \<Rightarrow> jstring \<Rightarrow> document \<Rightarrow> finding list \<Rightarrow> finding list" where
  \<open>check_title P html doc out =
     (let titleEl = querySelector doc (hasTag ''title'');
          title = orEmpty (map_option (\<lambda>e. trim (textContent e)) titleEl)
      in if title = []
         then push P html out Error (js ''title-missing'') (js ''Missing <title>.'')
                (case titleEl of Some t \<Rightarrow> Some t | None \<Rightarrow> head doc)
                (Some (js ''Add a descriptive, unique <title> (10'' @ [8211] @ js ''60 chars).''))
                (Some (js ''<title>''))
         else if length title < 10 \<or> length title > 60
         then push P html out Warning (js ''title-length'')
                (js ''Title length '' @ decimal (length title) @ js '' (aim 10'' @ [8211]
                   @ js ''60).'')
                titleEl (Some (js ''Rewrite title to recommended length.'')) None
         else push P html out Success (js ''title-ok'')
                (js ''Title present and well sized ('' @ decimal (length title) @ js '').'')
                titleEl None None)\<close>

subsection \<open>Meta description\<close>

definition check_meta_description ::
    "platform \<Rightarrow> jstring \<Rightarrow> document \<Rightarrow> finding list \<Rightarrow> finding list" where
  \<open>check_meta_description P html doc out =
     (let descEl = querySelector doc (hasTagAttr ''meta'' ''name'' ''description'');
          desc = orEmpty (map_option trim
                   (case descEl of Some e \<Rightarrow> getAttribute e (js ''content'') | None \<Rightarrow> None))
      in if desc = []
         then push P html out Warning (js ''meta-desc-missing'')
                (js ''Missing meta description.'') (head doc)
                (Some (js ''Add <meta name="description" content="'' @ [8230] @ js ''"> (50''
                   @ [8211] @ js ''160 chars).''))
                (Some (js ''meta name="description"''))
         else if length desc < 50 \<or> length desc > 160
         then push P html out Warning (js ''meta-desc-length'')
                (js ''Meta description length '' @ decimal (length desc) @ js '' (aim 50''
                   @ [8211] @ js ''160).'')
                descEl (Some (js ''Rewrite description to recommended length.'')) None
         else push P html out Success (js ''meta-desc-ok'')
                (js ''Meta description present and well sized.'') descEl None None)\<close>

subsection \<open>Canonical link\<close>

text \<open>\<open>canonical.href\<close>: without an \<open>href\<close> attribute the property is the empty string
  on a link of HTML and undefined on any other element, falsy both; with the attribute
  its value is the platform's.\<close>

definition link_href :: "platform \<Rightarrow> element \<Rightarrow> jstring" where
  "link_href P el =
     (case getAttribute el (js ''href'') of Some v \<Rightarrow> href_property P el | None \<Rightarrow> [])"

definition check_canonical ::
    "platform \<Rightarrow> jstring \<Rightarrow> document \<Rightarrow> finding list \<Rightarrow> finding list" where
  \<open>check_canonical P html doc out =
     (let canonical = querySelector doc isCanonicalLink
      in if orEmpty (map_option (link_href P) canonical) = []
         then push P html out Warning (js ''canonical-missing'') (js ''Canonical URL missing.'')
                (head doc)
                (Some (js ''Add <link rel="canonical" href="'' @ [8230] @ js ''">.''))
                (Some (js ''link rel="canonical"''))
         else push P html out Success (js ''canonical-ok'') (js ''Canonical URL present.'')
                canonical None None)\<close>

subsection \<open>Headings\<close>

definition isHeading :: "element \<Rightarrow> bool" where
  "isHeading e \<longleftrightarrow> hasTag ''h1'' e \<or> hasTag ''h2'' e \<or> hasTag ''h3'' e
     \<or> hasTag ''h4'' e \<or> hasTag ''h5'' e \<or> hasTag ''h6'' e"

definition check_h1 :: "platform \<Rightarrow> jstring \<Rightarrow> document \<Rightarrow> finding list \<Rightarrow> finding list" where
  \<open>check_h1 P html doc out =
     (let headings = querySelectorAll doc isHeading;
          h1s = filter (\<lambda>h. toLowerCase P (tagName h) = js ''h1'') headings
      in if length h1s \<noteq> 1
         then push P html out Warning (js ''h1-count'')
                (js ''Expected exactly 1 <h1>, found '' @ decimal (length h1s) @ js ''.'')
                (case h1s of h # _ \<Rightarrow> Some h | [] \<Rightarrow> body doc)
                (Some (js ''Use a single H1 and demote others to H2/H3 as needed.'')) None
         else push P html out Success (js ''h1-ok'') (js ''Exactly one H1 present.'')
                (case h1s of h # _ \<Rightarrow> Some h | [] \<Rightarrow> None) None None)\<close>

text \<open>\<open>Number(h.tagName.substring(1))\<close>: what follows the first letter of the tag name of
  a heading is one digit, and \<open>Number\<close> gives its value. A text that is no number gives
  \<open>NaN\<close> in JavaScript, which the loop below treats as it treats 0: the comparison fails
  and \<open>prev\<close> becomes falsy.\<close>

definition Number_digit :: "jstring \<Rightarrow> nat" where
  "Number_digit s = (case s of [d] \<Rightarrow> if 48 \<le> d \<and> d \<le> 57 then d - 48 else 0 | _ \<Rightarrow> 0)"

text \<open>The body of \<open>headings.forEach((h, idx) => ...)\<close>, with \<open>prev\<close>, \<open>orderIssues\<close> and
  \<open>out\<close> passed along.\<close>

fun headings_loop :: "platform \<Rightarrow> jstring \<Rightarrow> element list \<Rightarrow> nat \<Rightarrow> nat \<Rightarrow> nat \<Rightarrow>
    finding list \<Rightarrow> nat \<times> finding list" where
  "headings_loop P html [] idx prev orderIssues out = (orderIssues, out)"
| "headings_loop P html (h # hs) idx prev orderIssues out =
     (let level = Number_digit (drop 1 (tagName h))
      in if prev \<noteq> 0 \<and> int level - int prev > 1
         then headings_loop P html hs (idx + 1) level (orderIssues + 1)
                (push P html out Warning (js ''heading-order-'' @ decimal idx)
                   (js ''Heading jumps from H'' @ decimal prev @ js '' to H'' @ decimal level
                      @ js ''.'')
                   (Some h) (Some (js ''Adjust heading levels to avoid skipping levels.'')) None)
         else headings_loop P html hs (idx + 1) level orderIssues out)"

definition check_heading_order ::
    "platform \<Rightarrow> jstring \<Rightarrow> document \<Rightarrow> finding list \<Rightarrow> finding list" where
  "check_heading_order P html doc out =
     (let headings = querySelectorAll doc isHeading
      in case headings_loop P html headings 0 0 0 out of
           (orderIssues, out') \<Rightarrow>
             if orderIssues = 0
             then (case headings of
                     h # _ \<Rightarrow> push P html out' Success (js ''heading-order-ok'')
                                (js ''Heading hierarchy is consistent.'') (Some h) None None
                   | [] \<Rightarrow> out')
             else out')"

subsection \<open>Open Graph and Twitter card\<close>

definition check_open_graph ::
    "platform \<Rightarrow> jstring \<Rightarrow> document \<Rightarrow> finding list \<Rightarrow> finding list" where
  "check_open_graph P html doc out =
     (let ogT = querySelector doc (hasTagAttr ''meta'' ''property'' ''og:title'');
          ogD = querySelector doc (hasTagAttr ''meta'' ''property'' ''og:description'');
          ogI = querySelector doc (hasTagAttr ''meta'' ''property'' ''og:image'')
      in if ogT \<noteq> None \<and> ogD \<noteq> None \<and> ogI \<noteq> None
         then push P html out Success (js ''og-ok'')
                (js ''Open Graph tags present (title/description/image).'') ogT None None
         else push P html out Warning (js ''og-missing'')
                (js ''Missing one or more OG tags (title/description/image).'') (head doc)
                (Some (js ''Add og:title, og:description, and og:image meta tags.'')) None)"

definition check_twitter ::
    "platform \<Rightarrow> jstring \<Rightarrow> document \<Rightarrow> finding list \<Rightarrow> finding list" where
  \<open>check_twitter P html doc out =
     (let tw = querySelector doc (hasTagAttr ''meta'' ''name'' ''twitter:card'')
      in if tw \<noteq> None
         then push P html out Success (js ''twitter-card-ok'') (js ''Twitter Card present.'')
                tw None None
         else push P html out Warning (js ''twitter-card-missing'')
                (js ''Twitter Card missing.'') (head doc)
                (Some (js ''Add <meta name="twitter:card" content="summary_large_image">.''))
                None)\<close>

subsection \<open>Images\<close>

definition check_images ::
    "platform \<Rightarrow> jstring \<Rightarrow> document \<Rightarrow> finding list \<Rightarrow> finding list" where
  "check_images P html doc out =
     (let imgs = querySelectorAll doc (hasTag ''img'');
          noAlt = filter (\<lambda>img. trim (orEmpty (getAttribute img (js ''alt''))) = []) imgs
      in case noAlt of
           first # _ \<Rightarrow>
             push P html out Error (js ''img-alt-missing'')
               (decimal (length noAlt) @ js '' image(s) missing alt.'') (Some first)
               (Some (js ''Add concise, meaningful alt text for non-decorative images.'')) None
         | [] \<Rightarrow>
             (case imgs of
                i # _ \<Rightarrow> push P html out Success (js ''img-alt-ok'')
                           (js ''All images have alt text.'') (Some i) None None
              | [] \<Rightarrow> out))"

subsection \<open>Links\<close>

text \<open>The body of \<open>anchors.forEach\<close>, with \<open>nameless\<close> and \<open>blankNoRel\<close> passed along.\<close>

fun anchors_loop ::
    "platform \<Rightarrow> element list \<Rightarrow> element list \<Rightarrow> nat \<Rightarrow> element list \<times> nat" where
  "anchors_loop P [] nameless blankNoRel = (nameless, blankNoRel)"
| "anchors_loop P (a # as) nameless blankNoRel =
     (let txt = trim (collapse_ws (textContent a));
          aria = trim (orEmpty (getAttribute a (js ''aria-label'')));
          nameless' = (if txt = [] \<and> aria = [] then nameless @ [a] else nameless);
          t = getAttribute a (js ''target'');
          rel = toLowerCase P (orEmpty (getAttribute a (js ''rel'')))
      in anchors_loop P as nameless'
           (if t = Some (js ''_blank'')
               \<and> \<not> (includes_str rel (js ''noopener'') \<or> includes_str rel (js ''noreferrer''))
            then blankNoRel + 1 else blankNoRel))"

definition check_links ::
    "platform \<Rightarrow> jstring \<Rightarrow> document \<Rightarrow> finding list \<Rightarrow> finding list" where
  \<open>check_links P html doc out =
     (let anchors = querySelectorAll doc (hasTag ''a'')
      in case anchors_loop P anchors [] 0 of
           (nameless, blankNoRel) \<Rightarrow>
             (let out1 =
                   (case nameless of
                      n # _ \<Rightarrow>
                        push P html out Error (js ''link-name-missing'')
                          (decimal (length nameless) @ js '' link(s) lack accessible names.'')
                          (Some n)
                          (Some (js ''Provide link text or aria-label that describes the destination.''))
                          None
                    | [] \<Rightarrow>
                        (case anchors of
                           a # _ \<Rightarrow> push P html out Success (js ''link-name-ok'')
                                      (js ''All links have accessible names.'') (Some a) None None
                         | [] \<Rightarrow> out))
              in if blankNoRel \<noteq> 0
                 then push P html out1 Warning (js ''link-rel-missing'')
                        (decimal blankNoRel
                           @ js '' link(s) use target=_blank without rel=noopener.'')
                        (find (\<lambda>a. getAttribute a (js ''target'') = Some (js ''_blank'')) anchors)
                        (Some (js ''Add rel="noopener" (or rel="noopener noreferrer") to external links opening in new tab.''))
                        None
                 else (case anchors of
                         a # _ \<Rightarrow> push P html out1 Success (js ''link-rel-ok'')
                                    (js ''All external links use rel=noopener when target=_blank.'')
                                    (Some a) None None
                       | [] \<Rightarrow> out1)))\<close>

subsection \<open>Duplicate ids\<close>

text \<open>\<open>idCounts\<close> is a \<open>Map\<close>: its entries stay in the order in which the keys were
  first set.\<close>

fun map_set :: "(jstring \<times> nat) list \<Rightarrow> jstring \<Rightarrow> nat \<Rightarrow> (jstring \<times> nat) list" where
  "map_set [] k v = [(k, v)]"
| "map_set ((k', v') # m) k v = (if k' = k then (k, v) # m else (k', v') # map_set m k v)"

definition map_get :: "(jstring \<times> nat) list \<Rightarrow> jstring \<Rightarrow> nat option" where
  "map_get m k = map_of m k"

text \<open>The body of \<open>doc.querySelectorAll("[id]").forEach\<close>, over the elements of the
  document: those without an \<open>id\<close> attribute are not selected.\<close>

fun tally_ids :: "element list \<Rightarrow> (jstring \<times> nat) list \<Rightarrow> (jstring \<times> nat) list" where
  "tally_ids [] idCounts = idCounts"
| "tally_ids (el # els) idCounts =
     (case getAttribute el (js ''id'') of
        Some i \<Rightarrow>
          tally_ids els
            (map_set idCounts i ((case map_get idCounts i of Some n \<Rightarrow> n | None \<Rightarrow> 0) + 1))
      | None \<Rightarrow> tally_ids els idCounts)"

text \<open>
  \<open>doc.querySelector('[id="' + v + '"]')\<close>. The value is pasted into the selector as it
  is, so the browser reads it as the body of a CSS string:
  \<^item> without a quotation mark (34), a backslash (92) or a line break (10, 12, 13) the
    string is \<open>v\<close>, and the first element whose \<open>id\<close> is \<open>v\<close> is selected; a value with
    a code unit that CSS replaces when it reads its input (0 and the surrogates) is left
    to the platform;
  \<^item> a line break in the string makes it a bad string, and a quotation mark followed by
    letters and digits only closes it before further tokens and a second string: the
    selector is not valid and \<open>querySelector\<close> throws a \<open>SyntaxError\<close>;
  \<^item> everything else is left to the platform.
\<close>

definition isCssNewline :: "jchar \<Rightarrow> bool" where
  "isCssNewline c \<longleftrightarrow> c = 10 \<or> c = 12 \<or> c = 13"

definition endsCssString :: "jchar \<Rightarrow> bool" where
  "endsCssString c \<longleftrightarrow> c = 34 \<or> c = 92 \<or> isCssNewline c"

definition cssReplaced :: "jchar \<Rightarrow> bool" where
  "cssReplaced c \<longleftrightarrow> c = 0 \<or> (55296 \<le> c \<and> c \<le> 57343)"

definition querySelector_id :: "platform \<Rightarrow> document \<Rightarrow> jstring \<Rightarrow> exn + element option" where
  \<open>querySelector_id P doc v =
     (let text = js ''[id="'' @ v @ js ''"]''
      in case dropWhile (\<lambda>c. \<not> endsCssString c) v of
           [] \<Rightarrow>
             if list_ex cssReplaced v then selector_engine P doc text
             else Inr (querySelector doc (\<lambda>e. getAttribute e (js ''id'') = Some v))
         | c # r \<Rightarrow>
             if isCssNewline c then Inl SyntaxError
             else if c = 34 \<and> list_all isAsciiAlnum r then Inl SyntaxError
             else selector_engine P doc text)\<close>

definition check_dup_ids ::
    "platform \<Rightarrow> jstring \<Rightarrow> document \<Rightarrow> finding list \<Rightarrow> exn + finding list" where
  "check_dup_ids P html doc out =
     (let idCounts = tally_ids (elements_of (documentElement doc)) [];
          dups = filter (\<lambda>(k, c). c > 1) idCounts
      in case dups of
           (k, c) # _ \<Rightarrow>
             (case querySelector_id P doc k of
                Inl e \<Rightarrow> Inl e
              | Inr el \<Rightarrow>
                  Inr (push P html out Warning (js ''dup-ids'')
                         (decimal (length dups) @ js '' duplicate id(s) detected.'') el
                         (Some (js ''Ensure IDs are unique per element.'')) None))
         | [] \<Rightarrow>
             Inr (push P html out Success (js ''dup-ids-ok'') (js ''No duplicate ids found.'')
                    (Some (documentElement doc)) None None))"

subsection \<open>The audit\<close>

text \<open>The checks in the order of the source, each handing \<open>out\<close> to the next. An
  exception of the last check leaves the function: there is no result then.\<close>

definition audit_document :: "platform \<Rightarrow> jstring \<Rightarrow> document \<Rightarrow> exn + finding list" where
  "audit_document P html doc =
     (let out = [];
          out = check_lang P html doc out;
          out = check_title P html doc out;
          out = check_meta_description P html doc out;
          out = check_canonical P html doc out;
          out = check_h1 P html doc out;
          out = check_heading_order P html doc out;
          out = check_open_graph P html doc out;
          out = check_twitter P html doc out;
          out = check_images P html doc out;
          out = check_links P html doc out
      in check_dup_ids P html doc out)"

definition runSeoA11yAudit :: "platform \<Rightarrow> jstring \<Rightarrow> exn + finding list" where
  "runSeoA11yAudit P html = audit_document P html (parseFromString P html)"

section \<open>A platform for the examples\<close>

text \<open>
  An example is a text with its parse. For the examples of this theory the model settles
  every search and every selector itself, so that what is shown of them holds on every
  platform that parses the text as given. Where a statement needs one platform, it is
  this one: it parses the text of the example as \<open>doc\<close>; its other fields, which no
  example consults, are fixed arbitrarily.
\<close>

definition example_platform :: "document \<Rightarrow> platform" where
  "example_platform doc =
     \<lparr>regexp_engine = (\<lambda>pattern flags html. NoMatch),
      unit_toUpperCase = (\<lambda>c. c),
      unicode_toLowerCase = (\<lambda>s. s),
      parseFromString = (\<lambda>html. doc),
      selector_engine = (\<lambda>d text. Inr None),
      href_property = (\<lambda>el. [])\<rparr>"

section \<open>Notions of the specification\<close>

text \<open>The number of line breaks of a text, \<open>\r\n\<close>, \<open>\r\<close> and \<open>\n\<close> each counted once:
  the line feeds and carriage returns, less the pairs \<open>\r\n\<close>.\<close>

fun crlf_pairs :: "jstring \<Rightarrow> nat" where
  "crlf_pairs [] = 0"
| "crlf_pairs [c] = 0"
| "crlf_pairs (c # d # s) = (if c = 13 \<and> d = 10 then 1 else 0) + crlf_pairs (d # s)"

definition line_breaks :: "jstring \<Rightarrow> nat" where
  "line_breaks s = length (filter (\<lambda>c. c = 10 \<or> c = 13) s) - crlf_pairs s"

text \<open>The line of index \<open>i\<close>: one more than the line breaks before it.\<close>

definition line_at :: "jstring \<Rightarrow> nat \<Rightarrow> int" where
  "line_at html i = 1 + int (line_breaks (take i html))"

text \<open>The column of index \<open>i\<close>: one more than the characters between it and the nearest
  line break before it, or the start of the text.\<close>

definition column_at :: "jstring \<Rightarrow> nat \<Rightarrow> int" where
  "column_at html i =
     1 + int (length (takeWhile (\<lambda>c. c \<noteq> 10 \<and> c \<noteq> 13) (rev (take i html))))"

text \<open>The text from 120 characters before index \<open>i\<close> to \<open>after\<close> characters after it,
  within the bounds of the text, trimmed.\<close>

definition window_at :: "jstring \<Rightarrow> nat \<Rightarrow> nat \<Rightarrow> jstring" where
  "window_at html i after = trim (drop (i - 120) (take (i + after) html))"

text \<open>Location recovery succeeded: the pattern of the node was found, or, without a node,
  the literal query was.\<close>

definition recovered :: "platform \<Rightarrow> jstring \<Rightarrow> element option \<Rightarrow> jstring option \<Rightarrow> bool" where
  "recovered P html el queryForLocate =
     (case el of
        Some e \<Rightarrow>
          (case RegExp_search P (locate_pattern P e) (js ''i'') html of
             Found i \<Rightarrow> True | _ \<Rightarrow> False)
      | None \<Rightarrow>
          (case queryForLocate of
             Some q \<Rightarrow> q \<noteq> [] \<and> 0 \<le> indexOf html q
           | None \<Rightarrow> False))"

text \<open>The findings of the first ten checks, each run on its own, in the order of the
  source.\<close>

definition findings_before_dup_ids :: "platform \<Rightarrow> jstring \<Rightarrow> document \<Rightarrow> finding list" where
  "findings_before_dup_ids P html doc =
     check_lang P html doc [] @ check_title P html doc [] @ check_meta_description P html doc []
     @ check_canonical P html doc [] @ check_h1 P html doc [] @ check_heading_order P html doc []
     @ check_open_graph P html doc [] @ check_twitter P html doc [] @ check_images P html doc []
     @ check_links P html doc []"

text \<open>Line and column are present together, and both count from 1.\<close>

definition line_column_sound :: "finding \<Rightarrow> bool" where
  "line_column_sound f \<longleftrightarrow>
     (line f = None \<longleftrightarrow> column f = None)
     \<and> (case line f of Some l \<Rightarrow> 1 \<le> l | None \<Rightarrow> True)
     \<and> (case column f of Some c \<Rightarrow> 1 \<le> c | None \<Rightarrow> True)"

text \<open>The level of a heading, and the positions of a list of headings at which the level
  exceeds the previous level, when that is not 0, by more than 1.\<close>

definition heading_level :: "element \<Rightarrow> nat" where
  "heading_level h = Number_digit (drop 1 (tagName h))"

definition is_jump :: "element list \<Rightarrow> nat \<Rightarrow> bool" where
  "is_jump hs i \<longleftrightarrow>
     heading_level (hs ! (i - 1)) \<noteq> 0
     \<and> heading_level (hs ! i) > heading_level (hs ! (i - 1)) + 1"

definition heading_jumps :: "element list \<Rightarrow> nat list" where
  "heading_jumps hs = filter (is_jump hs) [1..<length hs]"

text \<open>The warning for the jump at position \<open>i\<close>.\<close>

definition heading_warning :: "platform \<Rightarrow> jstring \<Rightarrow> element list \<Rightarrow> nat \<Rightarrow> finding" where
  "heading_warning P html hs i =
     emitted P html Warning (js ''heading-order-'' @ decimal i)
       (js ''Heading jumps from H'' @ decimal (heading_level (hs ! (i - 1))) @ js '' to H''
          @ decimal (heading_level (hs ! i)) @ js ''.'')
       (Some (hs ! i)) (Some (js ''Adjust heading levels to avoid skipping levels.'')) None"

text \<open>The attributes that can tell a node from others, in the order of their priority;
  a value counts when it is not empty after trimming.\<close>

definition priority_attributes :: "jstring list" where
  "priority_attributes =
     [js ''id'', js ''name'', js ''property'', js ''rel'', js ''href'', js ''src'']"

definition nonblank_value :: "element \<Rightarrow> jstring \<Rightarrow> bool" where
  "nonblank_value el k \<longleftrightarrow> (case getAttribute el k of Some v \<Rightarrow> trim v \<noteq> [] | None \<Rightarrow> False)"

definition disambiguating_attribute :: "element \<Rightarrow> jstring option" where
  "disambiguating_attribute el = find (nonblank_value el) priority_attributes"

text \<open>The trimmed text of the first \<open>title\<close> element, empty when there is none.\<close>

definition title_text :: "document \<Rightarrow> jstring" where
  "title_text doc =
     orEmpty (map_option (\<lambda>e. trim (textContent e)) (querySelector doc (hasTag ''title'')))"

text \<open>A finding located on a node, and a finding located by a literal query.\<close>

definition located_by_node :: "platform \<Rightarrow> jstring \<Rightarrow> element \<Rightarrow> finding \<Rightarrow> bool" where
  "located_by_node P html e f \<longleftrightarrow>
     selector f = Some (cssSelector P e)
     \<and> line f = loc_line (locateElement P e html)
     \<and> column f = loc_column (locateElement P e html)
     \<and> snippet f = map_option trim (loc_snippet (locateElement P e html))"

definition located_by_query :: "jstring \<Rightarrow> jstring \<Rightarrow> finding \<Rightarrow> bool" where
  "located_by_query html q f \<longleftrightarrow>
     selector f = None
     \<and> line f = loc_line (locateQuery html q)
     \<and> column f = loc_column (locateQuery html q)
     \<and> snippet f = map_option trim (loc_snippet (locateQuery html q))"

text \<open>The values of the \<open>id\<close> attributes of a list of elements, in order.\<close>

definition id_values :: "element list \<Rightarrow> jstring list" where
  "id_values els = concat (map (\<lambda>e. case getAttribute e (js ''id'') of Some v \<Rightarrow> [v] | None \<Rightarrow> []) els)"

text \<open>What a pattern for an opening tag reads as: the less-than sign, white space, the
  tag name, anything but a greater-than sign, and then either a word boundary, the
  attribute, an equals sign within white space, and the value between two quotation marks,
  or just the word boundary; then anything but a greater-than sign, and that sign. The
  texts stand for themselves.\<close>

definition lits :: "jstring \<Rightarrow> rx_item list" where
  "lits s = map (\<lambda>c. One (Lit c)) s"

definition opening_tag_with :: "jstring \<Rightarrow> jstring \<Rightarrow> jstring \<Rightarrow> rx_item list" where
  "opening_tag_with tn k v =
     [One (Lit 60), Star Space] @ lits tn @ [Star NotGt, WordBoundary] @ lits k
     @ [Star Space, One (Lit 61), Star Space, One Quote] @ lits v
     @ [One Quote, Star NotGt, One (Lit 62)]"

definition bare_opening_tag :: "jstring \<Rightarrow> rx_item list" where
  "bare_opening_tag tn =
     [One (Lit 60), Star Space] @ lits tn @ [WordBoundary, Star NotGt, One (Lit 62)]"

section \<open>Example documents\<close>

text \<open>The text \<^verbatim>\<open>line1\n<meta name="description" content="x">\nline3\<close> and its parse.\<close>

definition html_meta :: jstring where
  \<open>html_meta = js ''line1'' @ [10] @ js ''<meta name="description" content="x">'' @ [10]
     @ js ''line3''\<close>

definition meta_el :: element where
  "meta_el = Element (js ''META'')
     [(js ''name'', js ''description''), (js ''content'', js ''x'')] []"

definition doc_meta :: document where
  "doc_meta = Document (Element (js ''HTML'') []
     [ElementNode (Element (js ''HEAD'') [] []),
      ElementNode (Element (js ''BODY'') []
        [TextNode (js ''line1'' @ [10]), ElementNode meta_el, TextNode ([10] @ js ''line3'')])])"

text \<open>\<^verbatim>\<open><html><head></head><body></body></html>\<close>, a text without a title.\<close>

definition html_bare :: jstring where
  "html_bare = js ''<html><head></head><body></body></html>''"

definition doc_bare :: document where
  "doc_bare = Document (Element (js ''HTML'') []
     [ElementNode (Element (js ''HEAD'') [] []), ElementNode (Element (js ''BODY'') [] [])])"

text \<open>\<^verbatim>\<open><h1>A</h1><h3>B</h3>\<close> and its parse.\<close>

definition html_jump :: jstring where
  "html_jump = js ''<h1>A</h1><h3>B</h3>''"

definition doc_jump :: document where
  "doc_jump = Document (Element (js ''HTML'') []
     [ElementNode (Element (js ''HEAD'') [] []),
      ElementNode (Element (js ''BODY'') []
        [ElementNode (Element (js ''H1'') [] [TextNode (js ''A'')]),
         ElementNode (Element (js ''H3'') [] [TextNode (js ''B'')])])])"

text \<open>A title of 4 characters, a title of 12, and a document without a head, which a
  script can build and \<open>DOMParser\<close> does not.\<close>

definition html_home :: jstring where
  "html_home = js ''<html><head><title>Home</title></head><body></body></html>''"

definition doc_home :: document where
  "doc_home = Document (Element (js ''HTML'') []
     [ElementNode (Element (js ''HEAD'') []
        [ElementNode (Element (js ''TITLE'') [] [TextNode (js ''Home'')])]),
      ElementNode (Element (js ''BODY'') [] [])])"

definition html_welcome :: jstring where
  "html_welcome = js ''<html><head><title>Welcome home</title></head><body></body></html>''"

definition doc_welcome :: document where
  "doc_welcome = Document (Element (js ''HTML'') []
     [ElementNode (Element (js ''HEAD'') []
        [ElementNode (Element (js ''TITLE'') [] [TextNode (js ''Welcome home'')])]),
      ElementNode (Element (js ''BODY'') [] [])])"

definition doc_headless :: document where
  "doc_headless = Document (Element (js ''HTML'') [] [])"

text \<open>Two elements with the id \<^verbatim>\<open>a"b\<close>, written \<^verbatim>\<open><p id='a"b'></p><p id='a"b'></p>\<close>,
  and two with the id \<open>dup\<close>.\<close>

definition html_quote :: jstring where
  \<open>html_quote = js ''<p id='' @ [39] @ js ''a"b'' @ [39] @ js ''></p><p id='' @ [39] @ js ''a"b''
     @ [39] @ js ''></p>''\<close>

definition doc_quote :: document where
  \<open>doc_quote = Document (Element (js ''HTML'') []
     [ElementNode (Element (js ''HEAD'') [] []),
      ElementNode (Element (js ''BODY'') []
        [ElementNode (Element (js ''P'') [(js ''id'', js ''a"b'')] []),
         ElementNode (Element (js ''P'') [(js ''id'', js ''a"b'')] [])])])\<close>

definition html_dup :: jstring where
  \<open>html_dup = js ''<p id="dup"></p><p id="dup"></p>''\<close>

definition doc_dup :: document where
  "doc_dup = Document (Element (js ''HTML'') []
     [ElementNode (Element (js ''HEAD'') [] []),
      ElementNode (Element (js ''BODY'') []
        [ElementNode (Element (js ''P'') [(js ''id'', js ''dup'')] []),
         ElementNode (Element (js ''P'') [(js ''id'', js ''dup'')] [])])])"

text \<open>The description tag in other letter case.\<close>

definition html_upper :: jstring where
  \<open>html_upper = js ''<META NAME="Description" CONTENT="x">''\<close>

section \<open>Positions in the text\<close>

lemma slice_nonneg:
  assumes "0 \<le> a" "0 \<le> b"
  shows "slice s a b = drop (nat a) (take (nat b) s)"
proof -
  have "take (nat (min b (int (length s)) - min a (int (length s)))) (drop (nat (min a (int (length s)))) s)
      = take (nat b - nat a) (drop (nat a) s)"
  proof (cases "a \<le> int (length s)")
    case True
    then have k: "min a (int (length s)) = a" by simp
    show ?thesis
    proof (cases "b \<le> int (length s)")
      case True
      then show ?thesis using k assms by (simp add: nat_diff_distrib')
    next
      case False
      then show ?thesis using k assms
        by (simp add: min_def nat_diff_distrib')
    qed
  next
    case False
    then show ?thesis using assms by simp
  qed
  then show ?thesis using assms by (simp add: slice_def Let_def drop_take)
qed

lemma slice_prefix: "slice s 0 (int i) = take i s"
  by (simp add: slice_nonneg)

lemma slice_window: "slice s (max 0 (int i - 120)) (min (int (length s)) (int i + int w)) = drop (i - 120) (take (i + w) s)"
proof -
  have a: "nat (max 0 (int i - 120)) = i - 120" by simp
  have b: "nat (min (int (length s)) (int i + int w)) = min (length s) (i + w)"
    by (auto simp: min_def nat_add_distrib)
  have "take (min (length s) (i + w)) s = take (i + w) s" by (simp add: min_def)
  then show ?thesis by (simp add: slice_nonneg a b)
qed

lemma split_lines_nonempty: "split_lines s \<noteq> []"
  by (induction s rule: split_lines.induct) (auto split: list.splits)

lemma crlf_pairs_skip: "d \<noteq> 13 \<Longrightarrow> crlf_pairs (d # s) = crlf_pairs s"
  by (cases s) auto

lemma crlf_pairs_le: "crlf_pairs s \<le> length (filter (\<lambda>c. c = 10 \<or> c = 13) s)"
  by (induction s rule: crlf_pairs.induct) auto

lemma length_split_lines_int:
  "int (length (split_lines s)) = 1 + int (length (filter (\<lambda>c. c = 10 \<or> c = 13) s)) - int (crlf_pairs s)"
proof (induction s rule: split_lines.induct)
  case 1
  then show ?case by simp
next
  case (2 c)
  then show ?case by simp
next
  case (3 c d s)
  show ?case
  proof (cases "c = 13 \<and> d = 10")
    case True
    then show ?thesis using 3 by (simp add: crlf_pairs_skip)
  next
    case False
    note nf = this
    show ?thesis
    proof (cases "c = 13 \<or> c = 10")
      case True
      then show ?thesis using 3 nf by auto
    next
      case False
      obtain h t where ht: "split_lines (d # s) = h # t"
        using split_lines_nonempty [of "d # s"] by (cases "split_lines (d # s)") auto
      have "length (split_lines (c # d # s)) = length (split_lines (d # s))"
        using False nf ht by simp
      then show ?thesis using 3 False nf by simp
    qed
  qed
qed

lemma length_split_lines: "length (split_lines s) = 1 + line_breaks s"
  using length_split_lines_int [of s] crlf_pairs_le [of s] by (simp add: line_breaks_def)

lemma lastIndexOf_at_char:
  "lastIndexOf_at s c i f =
     (if c \<in> set s then i + int (length s) - 1 - int (length (takeWhile (\<lambda>x. x \<noteq> c) (rev s))) else f)"
proof (induction s arbitrary: i f)
  case Nil
  then show ?case by simp
next
  case (Cons x s)
  show ?case
  proof (cases "c \<in> set s")
    case True
    then have "takeWhile (\<lambda>x. x \<noteq> c) (rev s @ [x]) = takeWhile (\<lambda>x. x \<noteq> c) (rev s)"
      by (intro takeWhile_append1 [where x = c]) auto
    then show ?thesis using True Cons by simp
  next
    case False
    then have tw: "takeWhile (\<lambda>x. x \<noteq> c) (rev s @ [x]) = rev s @ takeWhile (\<lambda>x. x \<noteq> c) [x]"
      by (intro takeWhile_append2) auto
    show ?thesis
    proof (cases "x = c")
      case True
      then have "length (takeWhile (\<lambda>x. x \<noteq> c) (rev s @ [x])) = length s"
        using tw by simp
      then show ?thesis using False True Cons by simp
    next
      case neq: False
      then show ?thesis using False Cons by simp
    qed
  qed
qed

lemma lastIndexOf_char:
  "lastIndexOf s c =
     (if c \<in> set s then int (length s) - 1 - int (length (takeWhile (\<lambda>x. x \<noteq> c) (rev s))) else - 1)"
  by (simp add: lastIndexOf_def lastIndexOf_at_char)

lemma takeWhile_both:
  "length (takeWhile (\<lambda>x. x \<noteq> a \<and> x \<noteq> b) xs)
     = min (length (takeWhile (\<lambda>x. x \<noteq> a) xs)) (length (takeWhile (\<lambda>x. x \<noteq> b) xs))"
  by (induction xs) auto

lemma takeWhile_all: "c \<notin> set s \<Longrightarrow> takeWhile (\<lambda>x. x \<noteq> c) (rev s) = rev s"
  by (simp only: takeWhile_eq_all_conv) auto

lemma length_takeWhile_rev_less:
  assumes "c \<in> set s"
  shows "length (takeWhile (\<lambda>x. x \<noteq> c) (rev s)) < length s"
proof (rule ccontr)
  assume "\<not> ?thesis"
  then have "length (takeWhile (\<lambda>x. x \<noteq> c) (rev s)) = length (rev s)"
    using length_takeWhile_le [of "\<lambda>x. x \<noteq> c" "rev s"] by simp
  then have "takeWhile (\<lambda>x. x \<noteq> c) (rev s) = rev s"
    using takeWhile_eq_take [of "\<lambda>x. x \<noteq> c" "rev s"] by simp
  then have "\<forall>x\<in>set (rev s). x \<noteq> c"
    by (simp only: takeWhile_eq_all_conv)
  then show False using assms by auto
qed

lemma column_offset:
  "int (length pre) - (if max (lastIndexOf pre 10) (lastIndexOf pre 13) \<ge> 0 then max (lastIndexOf pre 10) (lastIndexOf pre 13) else - 1)
     = int (length (takeWhile (\<lambda>x. x \<noteq> 10 \<and> x \<noteq> 13) (rev pre))) + 1"
proof -
  let ?a = "length (takeWhile (\<lambda>x. x \<noteq> (10::nat)) (rev pre))"
  let ?b = "length (takeWhile (\<lambda>x. x \<noteq> (13::nat)) (rev pre))"
  have la: "10 \<in> set pre \<Longrightarrow> ?a < length pre" by (rule length_takeWhile_rev_less)
  have lb: "13 \<in> set pre \<Longrightarrow> ?b < length pre" by (rule length_takeWhile_rev_less)
  have na: "10 \<notin> set pre \<Longrightarrow> ?a = length pre" by (simp add: takeWhile_all)
  have nb: "13 \<notin> set pre \<Longrightarrow> ?b = length pre" by (simp add: takeWhile_all)
  show ?thesis
    unfolding takeWhile_both lastIndexOf_char
    using la lb na nb by (cases "10 \<in> set pre"; cases "13 \<in> set pre") (simp_all add: min_def max_def)
qed

section \<open>The locator\<close>

lemma indexOf_at_range:
  "0 \<le> k \<Longrightarrow> indexOf_at s q k = - 1 \<or> (k \<le> indexOf_at s q k \<and> indexOf_at s q k \<le> k + int (length s))"
proof (induction s arbitrary: k)
  case Nil
  then show ?case by simp
next
  case (Cons c s)
  from Cons.IH [of "k + 1"] Cons.prems show ?case by auto
qed

lemma indexOf_le_length: "indexOf html q \<le> int (length html)"
  using indexOf_at_range [of 0 html q] by (auto simp: indexOf_def)

lemma locateElement_found:
  assumes "RegExp_search P (locate_pattern P el) (js ''i'') html = Found i" and "i \<le> length html"
  shows "locateElement P el html =
           \<lparr>loc_line = Some (line_at html i), loc_column = Some (column_at html i),
            loc_snippet = Some (drop (i - 120) (take (i + 240) html))\<rparr>"
proof -
  have len: "int (length (take i html)) = int i" using assms(2) by simp
  have col: "int i - (if max (lastIndexOf (take i html) 10) (lastIndexOf (take i html) 13) \<ge> 0
                 then max (lastIndexOf (take i html) 10) (lastIndexOf (take i html) 13) else - 1)
             = column_at html i"
    using column_offset [of "take i html"] len by (simp add: column_at_def)
  have win: "slice html (max 0 (int i - 120)) (min (int (length html)) (int i + 240))
             = drop (i - 120) (take (i + 240) html)"
    using slice_window [of html i 240] by simp
  have ln: "int (length (split_lines (take i html))) = line_at html i"
    by (simp add: length_split_lines line_at_def)
  show ?thesis
    by (simp only: locateElement_def Let_def assms(1) search_result.case slice_prefix ln col win)
qed

lemma locateElement_not_found:
  "RegExp_search P (locate_pattern P el) (js ''i'') html = NoMatch
     \<or> RegExp_search P (locate_pattern P el) (js ''i'') html = Throws
     \<Longrightarrow> locateElement P el html = empty_locator"
  by (auto simp: locateElement_def)

lemma locateQuery_found:
  assumes "indexOf html q = int i"
  shows "locateQuery html q =
           \<lparr>loc_line = Some (line_at html i), loc_column = Some (column_at html i),
            loc_snippet = Some (drop (i - 120) (take (i + length q + 120) html))\<rparr>"
proof -
  have il: "i \<le> length html" using indexOf_le_length [of html q] assms by simp
  have len: "int (length (take i html)) = int i" using il by simp
  have col: "int i - (if max (lastIndexOf (take i html) 10) (lastIndexOf (take i html) 13) \<ge> 0
                 then max (lastIndexOf (take i html) 10) (lastIndexOf (take i html) 13) else - 1)
             = column_at html i"
    using column_offset [of "take i html"] len by (simp add: column_at_def)
  have win: "slice html (max 0 (int i - 120)) (min (int (length html)) (int i + int (length q) + 120))
             = drop (i - 120) (take (i + length q + 120) html)"
    using slice_window [of html i "length q + 120"] by (simp add: add.assoc)
  have ln: "int (length (split_lines (take i html))) = line_at html i"
    by (simp add: length_split_lines line_at_def)
  have nn: "\<not> int i < 0" by simp
  show ?thesis
    by (simp only: locateQuery_def Let_def assms nn if_False slice_prefix ln col win)
qed

lemma locateQuery_not_found: "indexOf html q < 0 \<Longrightarrow> locateQuery html q = empty_locator"
  by (simp add: locateQuery_def Let_def)

lemmas str_ev = js_def trim_def isWhiteSpace_def toLowerCase_def asciiLower_def lower_unit_def
  startsWith_def
  indexOf_def orEmpty_def includes_str_def
lemmas rx_ev = parse_rx.simps next_atom_def RegExp_search_def canonicalize_def upper_unit_def
  isWordChar_def isAsciiAlnum_def isRegexMeta_def isSyntaxCharacter_def
lemmas pat_ev = locate_pattern_def candidate_attrs_def usable_def attr_pattern_def tag_pattern_def
  escapeRegExp_def getAttribute_def

lemma emitted_node_found:
  assumes "i \<le> length html" and "RegExp_search P (locate_pattern P el) (js ''i'') html = Found i"
  shows "line (emitted P html sev k msg (Some el) rec q) = Some (line_at html i)"
    and "column (emitted P html sev k msg (Some el) rec q) = Some (column_at html i)"
    and "snippet (emitted P html sev k msg (Some el) rec q) = Some (window_at html i 240)"
  using locateElement_found [OF assms(2) assms(1)]
  by (simp_all add: emitted_def window_at_def)

lemma emitted_query_found:
  assumes "query \<noteq> []" and "indexOf html query = int j"
  shows "line (emitted P html sev k msg None rec (Some query)) = Some (line_at html j)"
    and "column (emitted P html sev k msg None rec (Some query)) = Some (column_at html j)"
    and "snippet (emitted P html sev k msg None rec (Some query))
           = Some (window_at html j (length query + 120))"
  using locateQuery_found [OF assms(2)] assms(1)
  by (simp_all add: emitted_def window_at_def add.assoc)

lemma meta_search: "RegExp_search P (locate_pattern P meta_el) (js ''i'') html_meta = Found 6"
  by (simp add: pat_ev meta_el_def html_meta_def str_ev rx_ev)

lemma meta_line: "line_at html_meta 6 = 2"
  by (simp add: line_at_def line_breaks_def html_meta_def js_def)

lemma meta_column: "column_at html_meta 6 = 1"
  by (simp add: column_at_def html_meta_def js_def)

lemma meta_window: "window_at html_meta 6 240 = html_meta"
  by (simp add: window_at_def html_meta_def str_ev)

lemma meta_includes: \<open>includes_str html_meta (js ''<meta name="description" content="x">'')\<close>
  by (simp add: html_meta_def str_ev)

lemma meta_query: "indexOf html_meta (js ''line3'') = 44"
  by (simp add: html_meta_def str_ev)

text \<open>
  Claim C1. When the pattern of a node is found at index \<open>i\<close> of the markup, or a
  non-empty literal query at index \<open>j\<close>, the finding reports: as line, one more than the
  number of line breaks before the match (\<open>\r\n\<close>, \<open>\r\<close> and \<open>\n\<close> each counted
  once); as column, the 1-based offset from the nearest line break before the match, or
  from the start of the text; as snippet, the text from 120 characters before the match
  to 240 after it (node) or to the length of the query plus 120 after it (query), within
  the bounds of the text and trimmed. For the text
  \<^verbatim>\<open>line1\n<meta name="description" content="x">\nline3\<close> the description node is
  reported on line 2, with a snippet that contains the whole tag.
\<close>

theorem locator_position:
  \<open>(i \<le> length html \<and> RegExp_search P (locate_pattern P el) (js ''i'') html = Found i \<longrightarrow>
      line (emitted P html sev k msg (Some el) rec q) = Some (line_at html i) \<and>
      column (emitted P html sev k msg (Some el) rec q) = Some (column_at html i) \<and>
      snippet (emitted P html sev k msg (Some el) rec q) = Some (window_at html i 240))
   \<and> (query \<noteq> [] \<and> indexOf html query = int j \<longrightarrow>
      line (emitted P html sev k msg None rec (Some query)) = Some (line_at html j) \<and>
      column (emitted P html sev k msg None rec (Some query)) = Some (column_at html j) \<and>
      snippet (emitted P html sev k msg None rec (Some query))
        = Some (window_at html j (length query + 120)))
   \<and> line (emitted P html_meta sev k msg (Some meta_el) rec q) = Some 2
   \<and> snippet (emitted P html_meta sev k msg (Some meta_el) rec q)
        = Some html_meta
   \<and> includes_str html_meta (js ''<meta name="description" content="x">'')\<close>
proof -
  have s: "RegExp_search P (locate_pattern P meta_el) (js ''i'') html_meta = Found 6"
    by (rule meta_search)
  have l: "6 \<le> length html_meta" by (simp add: html_meta_def js_def)
  show ?thesis
    using emitted_node_found [of i html P el sev k msg rec q]
      emitted_query_found [of query html j P sev k msg rec]
      emitted_node_found [OF l s, of sev k msg rec q] meta_line meta_window meta_includes
    by simp
qed

theorem locator_position_witness:
  \<open>6 \<le> length html_meta
   \<and> RegExp_search (example_platform doc_meta) (locate_pattern (example_platform doc_meta) meta_el)
        (js ''i'') html_meta = Found 6
   \<and> line (emitted (example_platform doc_meta) html_meta Warning (js ''meta-desc-length'') []
        (Some meta_el) None None) = Some 2
   \<and> column (emitted (example_platform doc_meta) html_meta Warning (js ''meta-desc-length'') []
        (Some meta_el) None None) = Some 1
   \<and> js ''line3'' \<noteq> [] \<and> indexOf html_meta (js ''line3'') = 44
   \<and> line (emitted (example_platform doc_meta) html_meta Warning (js ''meta-desc-length'') []
        None None (Some (js ''line3''))) = Some (line_at html_meta 44)\<close>
proof -
  have s: "RegExp_search (example_platform doc_meta) (locate_pattern (example_platform doc_meta) meta_el)
        (js ''i'') html_meta = Found 6"
    by (rule meta_search)
  have l: "6 \<le> length html_meta" by (simp add: html_meta_def js_def)
  have n: "js ''line3'' \<noteq> []" by (simp add: js_def)
  have j: "indexOf html_meta (js ''line3'') = int 44" by (simp add: meta_query)
  show ?thesis
    using locator_position [of 6 html_meta "example_platform doc_meta" meta_el Warning
        "js ''meta-desc-length''" "[]" None None "js ''line3''" 44]
      s l n j meta_line meta_column meta_query
    by simp
qed

section \<open>The checks append to the result\<close>

lemma push_append: "push P html (out @ out') sev i msg el rec q = out @ push P html out' sev i msg el rec q"
  by (simp add: push_def)

lemma push_Nil: "push P html out sev i msg el rec q = out @ push P html [] sev i msg el rec q"
  by (simp add: push_def)

lemma check_lang_append: "check_lang P html doc out = out @ check_lang P html doc []"
  by (simp add: check_lang_def Let_def push_def)

lemma check_title_append: "check_title P html doc out = out @ check_title P html doc []"
  by (simp add: check_title_def Let_def push_def)

lemma check_meta_description_append:
  "check_meta_description P html doc out = out @ check_meta_description P html doc []"
  by (simp add: check_meta_description_def Let_def push_def)

lemma check_canonical_append: "check_canonical P html doc out = out @ check_canonical P html doc []"
  by (simp add: check_canonical_def Let_def push_def)

lemma check_h1_append: "check_h1 P html doc out = out @ check_h1 P html doc []"
  by (simp add: check_h1_def Let_def push_def)

lemma headings_loop_append:
  "headings_loop P html hs idx prev n (out @ out')
     = (case headings_loop P html hs idx prev n out' of (m, fs) \<Rightarrow> (m, out @ fs))"
proof (induction hs arbitrary: idx prev n out')
  case Nil
  then show ?case by simp
next
  case (Cons h hs)
  show ?case by (simp add: Let_def push_append Cons.IH)
qed

lemma check_heading_order_append:
  "check_heading_order P html doc out = out @ check_heading_order P html doc []"
proof -
  obtain m fs where l: "headings_loop P html (querySelectorAll doc isHeading) 0 0 0 [] = (m, fs)"
    by (cases "headings_loop P html (querySelectorAll doc isHeading) 0 0 0 []")
  have "headings_loop P html (querySelectorAll doc isHeading) 0 0 0 (out @ []) = (m, out @ fs)"
    unfolding headings_loop_append l by simp
  then show ?thesis
    using l by (simp add: check_heading_order_def Let_def push_def split: list.splits)
qed

lemma check_open_graph_append: "check_open_graph P html doc out = out @ check_open_graph P html doc []"
  by (simp add: check_open_graph_def Let_def push_def)

lemma check_twitter_append: "check_twitter P html doc out = out @ check_twitter P html doc []"
  by (simp add: check_twitter_def Let_def push_def)

lemma check_images_append: "check_images P html doc out = out @ check_images P html doc []"
  by (simp add: check_images_def Let_def push_def split: list.splits)

lemma check_links_append: "check_links P html doc out = out @ check_links P html doc []"
proof -
  obtain nl bn where l: "anchors_loop P (querySelectorAll doc (hasTag ''a'')) [] 0 = (nl, bn)"
    by (cases "anchors_loop P (querySelectorAll doc (hasTag ''a'')) [] 0")
  show ?thesis
    unfolding check_links_def Let_def l prod.case push_def
    by (cases nl; cases "querySelectorAll doc (hasTag ''a'')") simp_all
qed

lemma check_dup_ids_append:
  "check_dup_ids P html doc out
     = (case check_dup_ids P html doc [] of Inl e \<Rightarrow> Inl e | Inr d \<Rightarrow> Inr (out @ d))"
proof (cases "filter (\<lambda>(k, c). c > 1) (tally_ids (elements_of (documentElement doc)) [])")
  case Nil
  then show ?thesis by (simp add: check_dup_ids_def Let_def push_def)
next
  case (Cons kc rest)
  obtain k c where kc: "kc = (k, c)" by (cases kc)
  show ?thesis
    using Cons kc
    by (cases "querySelector_id P doc k") (simp_all add: check_dup_ids_def Let_def push_def)
qed

lemma audit_document_sequence:
  "audit_document P html doc
     = (case check_dup_ids P html doc [] of
          Inl e \<Rightarrow> Inl e
        | Inr d \<Rightarrow> Inr (findings_before_dup_ids P html doc @ d))"
proof -
  have "audit_document P html doc =
      check_dup_ids P html doc (check_links P html doc (check_images P html doc
        (check_twitter P html doc (check_open_graph P html doc (check_heading_order P html doc
          (check_h1 P html doc (check_canonical P html doc (check_meta_description P html doc
            (check_title P html doc (check_lang P html doc []))))))))))"
    by (simp add: audit_document_def Let_def)
  also have "\<dots> = (case check_dup_ids P html doc [] of
          Inl e \<Rightarrow> Inl e
        | Inr d \<Rightarrow> Inr (findings_before_dup_ids P html doc @ d))"
    apply (subst check_dup_ids_append)
    apply (subst check_links_append)
    apply (subst check_images_append)
    apply (subst check_twitter_append)
    apply (subst check_open_graph_append)
    apply (subst check_heading_order_append)
    apply (subst check_h1_append)
    apply (subst check_canonical_append)
    apply (subst check_meta_description_append)
    apply (subst check_title_append)
    apply (simp add: findings_before_dup_ids_def split: sum.splits)
    done
  finally show ?thesis .
qed

section \<open>Every finding comes from the emitter\<close>

lemma push_all:
  assumes "\<And>sev i msg el rec q. Q (emitted P html sev i msg el rec q)" and "list_all Q out"
  shows "list_all Q (push P html out sev i msg el rec q)"
  using assms by (simp add: push_def)

lemma headings_loop_all:
  assumes A: "\<And>sev i msg el rec q. Q (emitted P html sev i msg el rec q)"
  shows "list_all Q out \<Longrightarrow> list_all Q (snd (headings_loop P html hs idx prev n out))"
proof (induction hs arbitrary: idx prev n out)
  case Nil
  then show ?case by simp
next
  case (Cons h hs)
  show ?case using Cons.prems by (auto simp: Let_def intro!: Cons.IH push_all A)
qed

lemma checks_all:
  assumes A: "\<And>sev i msg el rec q. Q (emitted P html sev i msg el rec q)"
  shows "list_all Q (check_lang P html doc [])"
    and "list_all Q (check_title P html doc [])"
    and "list_all Q (check_meta_description P html doc [])"
    and "list_all Q (check_canonical P html doc [])"
    and "list_all Q (check_h1 P html doc [])"
    and "list_all Q (check_open_graph P html doc [])"
    and "list_all Q (check_twitter P html doc [])"
    and "list_all Q (check_images P html doc [])"
  by (simp_all add: check_lang_def check_title_def check_meta_description_def check_canonical_def
      check_h1_def check_open_graph_def check_twitter_def check_images_def Let_def push_def A
      split: list.split)

lemma check_heading_order_all:
  assumes A: "\<And>sev i msg el rec q. Q (emitted P html sev i msg el rec q)"
  shows "list_all Q (check_heading_order P html doc [])"
proof -
  obtain m fs where l: "headings_loop P html (querySelectorAll doc isHeading) 0 0 0 [] = (m, fs)"
    by (cases "headings_loop P html (querySelectorAll doc isHeading) 0 0 0 []")
  have "list_all Q fs"
    using headings_loop_all [of Q P html "[]" "querySelectorAll doc isHeading" 0 0 0] A l by simp
  then show ?thesis
    unfolding check_heading_order_def Let_def l prod.case
    by (simp add: push_def A split: list.split)
qed

lemma check_links_all:
  assumes A: "\<And>sev i msg el rec q. Q (emitted P html sev i msg el rec q)"
  shows "list_all Q (check_links P html doc [])"
proof -
  obtain nl bn where l: "anchors_loop P (querySelectorAll doc (hasTag ''a'')) [] 0 = (nl, bn)"
    by (cases "anchors_loop P (querySelectorAll doc (hasTag ''a'')) [] 0")
  show ?thesis
    unfolding check_links_def Let_def l prod.case push_def
    by (cases nl; cases "querySelectorAll doc (hasTag ''a'')") (simp_all add: A)
qed

lemma check_dup_ids_all:
  assumes A: "\<And>sev i msg el rec q. Q (emitted P html sev i msg el rec q)"
    and "check_dup_ids P html doc [] = Inr d"
  shows "list_all Q d"
proof (cases "filter (\<lambda>(k, c). c > 1) (tally_ids (elements_of (documentElement doc)) [])")
  case Nil
  then show ?thesis using assms(2) by (auto simp: check_dup_ids_def Let_def push_def A)
next
  case (Cons kc rest)
  obtain k c where kc: "kc = (k, c)" by (cases kc)
  show ?thesis
    using Cons kc assms(2)
    by (cases "querySelector_id P doc k") (auto simp: check_dup_ids_def Let_def push_def A)
qed

lemma audit_document_all:
  assumes A: "\<And>sev i msg el rec q. Q (emitted P html sev i msg el rec q)"
    and "audit_document P html doc = Inr fs"
  shows "list_all Q fs"
proof -
  obtain d where d: "check_dup_ids P html doc [] = Inr d"
    and fs: "fs = findings_before_dup_ids P html doc @ d"
    using assms(2) by (auto simp: audit_document_sequence split: sum.splits)
  have "list_all Q d" using check_dup_ids_all [of Q P html doc d] A d by blast
  moreover have "list_all Q (findings_before_dup_ids P html doc)"
    unfolding findings_before_dup_ids_def list_all_append
    using checks_all [of Q P html doc] check_heading_order_all [of Q P html doc]
      check_links_all [of Q P html doc] A by blast
  ultimately show ?thesis by (simp add: fs)
qed

lemma emitted_selector: "selector (emitted P html sev i msg el rec q) \<noteq> None \<longleftrightarrow> el \<noteq> None"
  by (simp add: emitted_def Let_def)

lemma emitted_located:
  assumes "line (emitted P html sev i msg el rec q) \<noteq> None
     \<or> column (emitted P html sev i msg el rec q) \<noteq> None
     \<or> snippet (emitted P html sev i msg el rec q) \<noteq> None"
  shows "recovered P html el q"
proof (cases el)
  case (Some e)
  then show ?thesis using assms
    by (cases "RegExp_search P (locate_pattern P e) (js ''i'') html")
      (auto simp: emitted_def recovered_def locateElement_def empty_locator_def Let_def)
next
  case None
  then show ?thesis using assms
    by (cases q)
      (auto simp: emitted_def recovered_def locateQuery_def empty_locator_def Let_def
        split: if_splits)
qed

lemma lastIndexOf_less: "lastIndexOf s c < int (length s)"
  using length_takeWhile_rev_less [of c s] by (auto simp: lastIndexOf_char)

lemma position_bounds:
  assumes "0 \<le> idx"
  shows "1 \<le> int (length (split_lines (slice html 0 idx)))"
    and "1 \<le> idx - (if max (lastIndexOf (slice html 0 idx) 10) (lastIndexOf (slice html 0 idx) 13) \<ge> 0
                    then max (lastIndexOf (slice html 0 idx) 10) (lastIndexOf (slice html 0 idx) 13)
                    else - 1)"
proof -
  show "1 \<le> int (length (split_lines (slice html 0 idx)))"
    using split_lines_nonempty [of "slice html 0 idx"]
    by (cases "split_lines (slice html 0 idx)") auto
  have "int (length (slice html 0 idx)) \<le> idx"
    using assms by (simp add: slice_nonneg)
  then show "1 \<le> idx - (if max (lastIndexOf (slice html 0 idx) 10) (lastIndexOf (slice html 0 idx) 13) \<ge> 0
                    then max (lastIndexOf (slice html 0 idx) 10) (lastIndexOf (slice html 0 idx) 13)
                    else - 1)"
    using lastIndexOf_less [of "slice html 0 idx" 10] lastIndexOf_less [of "slice html 0 idx" 13] assms
    by (auto simp: max_def)
qed

lemma locateElement_sound:
  "(loc_line (locateElement P e html) = None \<longleftrightarrow> loc_column (locateElement P e html) = None)
   \<and> (case loc_line (locateElement P e html) of Some l \<Rightarrow> 1 \<le> l | None \<Rightarrow> True)
   \<and> (case loc_column (locateElement P e html) of Some c \<Rightarrow> 1 \<le> c | None \<Rightarrow> True)"
proof (cases "RegExp_search P (locate_pattern P e) (js ''i'') html")
  case (Found i)
  show ?thesis
    using position_bounds [of "int i" html] Found
    by (simp add: locateElement_def Let_def)
qed (simp_all add: locateElement_def empty_locator_def)

lemma locateQuery_sound:
  "(loc_line (locateQuery html q) = None \<longleftrightarrow> loc_column (locateQuery html q) = None)
   \<and> (case loc_line (locateQuery html q) of Some l \<Rightarrow> 1 \<le> l | None \<Rightarrow> True)
   \<and> (case loc_column (locateQuery html q) of Some c \<Rightarrow> 1 \<le> c | None \<Rightarrow> True)"
proof (cases "indexOf html q < 0")
  case True
  then show ?thesis by (simp add: locateQuery_def Let_def empty_locator_def)
next
  case False
  then show ?thesis
    using position_bounds [of "indexOf html q" html]
    by (simp add: locateQuery_def Let_def)
qed

lemma emitted_line_column: "line_column_sound (emitted P html sev i msg el rec q)"
proof (cases el)
  case (Some e)
  then show ?thesis using locateElement_sound [of P e html]
    by (simp add: line_column_sound_def emitted_def Let_def)
next
  case None
  show ?thesis
  proof (cases q)
    case (Some qs)
    then show ?thesis using None locateQuery_sound [of html qs]
      by (simp add: line_column_sound_def emitted_def Let_def empty_locator_def)
  next
    case none: None
    then show ?thesis using None
      by (simp add: line_column_sound_def emitted_def Let_def empty_locator_def)
  qed
qed

lemma audit_document_returns:
  "check_dup_ids P html doc [] = Inr d
     \<Longrightarrow> audit_document P html doc = Inr (findings_before_dup_ids P html doc @ d)"
  by (simp add: audit_document_sequence)

lemma bare_root_search:
  "RegExp_search P (locate_pattern P (documentElement doc_bare)) (js ''i'') html_bare = Found 0"
  by (simp add: pat_ev doc_bare_def html_bare_def str_ev rx_ev)

lemma bare_lang:
  "check_lang P html_bare doc_bare []
     = [emitted P html_bare Error (js ''lang-missing'') (js ''Missing <html lang>.'')
          (Some (documentElement doc_bare))
          (Some (js ''Set the <html lang> attribute, e.g., <html lang=\"en\">.'')) None]"
  by (simp add: check_lang_def Let_def push_def doc_bare_def getAttribute_def orEmpty_def)

lemma bare_dup_ids:
  "check_dup_ids P html_bare doc_bare []
     = Inr [emitted P html_bare Success (js ''dup-ids-ok'') (js ''No duplicate ids found.'')
              (Some (documentElement doc_bare)) None None]"
  by (simp add: check_dup_ids_def Let_def push_def doc_bare_def getAttribute_def)

lemma bare_audit:
  "\<exists>fs. audit_document P html_bare doc_bare = Inr fs
     \<and> emitted P html_bare Error (js ''lang-missing'') (js ''Missing <html lang>.'')
          (Some (documentElement doc_bare))
          (Some (js ''Set the <html lang> attribute, e.g., <html lang=\"en\">.'')) None \<in> set fs"
  using audit_document_returns [OF bare_dup_ids, of P]
  by (simp add: findings_before_dup_ids_def bare_lang)

lemma bare_lang_line:
  "line (emitted P html_bare sev i msg (Some (documentElement doc_bare)) rec q)
     = Some 1"
proof -
  have s: "RegExp_search P (locate_pattern P (documentElement doc_bare)) (js ''i'') html_bare
             = Found 0"
    by (rule bare_root_search)
  have "line_at html_bare 0 = 1" by (simp add: line_at_def line_breaks_def)
  then show ?thesis using emitted_node_found(1) [OF _ s, of sev i msg rec q] by simp
qed

text \<open>
  Claim C2. In a finding that \<open>push\<close> builds, the selector is present if and only if a
  node was supplied, and line, column or snippet are present only if location recovery
  succeeded: the pattern of the node was found, or, without a node, the literal query was.
  Every finding of an audit is built by \<open>push\<close> from some arguments, for which the same
  holds.
\<close>

theorem findings_selector_location:
  "(selector (emitted P html sev i msg el rec q) \<noteq> None \<longleftrightarrow> el \<noteq> None)
   \<and> (line (emitted P html sev i msg el rec q) \<noteq> None
        \<or> column (emitted P html sev i msg el rec q) \<noteq> None
        \<or> snippet (emitted P html sev i msg el rec q) \<noteq> None
      \<longrightarrow> recovered P html el q)
   \<and> (audit_document P html doc = Inr fs \<and> f \<in> set fs \<longrightarrow>
        (\<exists>sev' i' msg' el' rec' q'.
           f = emitted P html sev' i' msg' el' rec' q'
           \<and> (selector f \<noteq> None \<longleftrightarrow> el' \<noteq> None)
           \<and> (line f \<noteq> None \<or> column f \<noteq> None \<or> snippet f \<noteq> None
                \<longrightarrow> recovered P html el' q')))"
proof -
  let ?Q = "\<lambda>f. \<exists>sev' i' msg' el' rec' q'.
           f = emitted P html sev' i' msg' el' rec' q'
           \<and> (selector f \<noteq> None \<longleftrightarrow> el' \<noteq> None)
           \<and> (line f \<noteq> None \<or> column f \<noteq> None \<or> snippet f \<noteq> None
                \<longrightarrow> recovered P html el' q')"
  have A: "?Q (emitted P html sev i msg el rec q)" for sev i msg el rec q
    using emitted_selector [of P html sev i msg el rec q]
      emitted_located [of P html sev i msg el rec q] by blast
  have "audit_document P html doc = Inr fs \<Longrightarrow> f \<in> set fs \<Longrightarrow> ?Q f"
    using audit_document_all [of ?Q P html doc fs] A by (simp add: list_all_iff)
  then show ?thesis
    using emitted_selector [of P html sev i msg el rec q]
      emitted_located [of P html sev i msg el rec q] by blast
qed

theorem findings_selector_location_witness:
  "line (emitted (example_platform doc_bare) html_bare Error (js ''lang-missing'') []
          (Some (documentElement doc_bare)) None None) \<noteq> None
   \<and> recovered (example_platform doc_bare) html_bare (Some (documentElement doc_bare)) None
   \<and> (\<exists>fs f. audit_document (example_platform doc_bare) html_bare doc_bare = Inr fs
        \<and> f \<in> set fs \<and> line f \<noteq> None
        \<and> (\<exists>sev i msg el rec q.
              f = emitted (example_platform doc_bare) html_bare sev i msg el rec q
              \<and> recovered (example_platform doc_bare) html_bare el q))"
proof -
  let ?P = "example_platform doc_bare"
  let ?f = "emitted ?P html_bare Error (js ''lang-missing'') [] (Some (documentElement doc_bare))
     None None"
  have l: "line ?f \<noteq> None" by (simp add: bare_lang_line)
  have r: "recovered ?P html_bare (Some (documentElement doc_bare)) None"
    using findings_selector_location [of ?P html_bare Error "js ''lang-missing''" "[]"
        "Some (documentElement doc_bare)" None None] l by blast
  obtain fs g where a: "audit_document ?P html_bare doc_bare = Inr fs" and g: "g \<in> set fs"
    and lg: "line g \<noteq> None"
    using bare_audit [of ?P] bare_lang_line [of ?P] by fastforce
  have "\<exists>sev i msg el rec q. g = emitted ?P html_bare sev i msg el rec q
          \<and> recovered ?P html_bare el q"
    using findings_selector_location [of ?P html_bare _ _ _ _ _ _ doc_bare fs g] a g lg by blast
  then show ?thesis using l r a g lg by blast
qed

lemma column_at_first_line:
  assumes "i \<le> length html" "10 \<notin> set (take i html)" "13 \<notin> set (take i html)"
  shows "column_at html i = int i + 1"
proof -
  have eq: "takeWhile (\<lambda>c. c \<noteq> 10 \<and> c \<noteq> 13) (rev (take i html)) = rev (take i html)"
    using assms(2,3) by (simp only: takeWhile_eq_all_conv) auto
  have "length (takeWhile (\<lambda>c. c \<noteq> 10 \<and> c \<noteq> 13) (rev (take i html))) = i"
    unfolding eq using assms(1) by simp
  then show ?thesis by (simp only: column_at_def)
qed

text \<open>
  Claim C10. In every finding, the line is present if and only if the column is, and both
  are at least 1 when present; this holds for what \<open>push\<close> builds and so for every
  finding of an audit. When no line break precedes the match, the column is the index of
  the match plus 1.
\<close>

theorem findings_line_column:
  "line_column_sound (emitted P html sev k msg el rec q)
   \<and> (audit_document P html doc = Inr fs \<and> f \<in> set fs \<longrightarrow> line_column_sound f)
   \<and> (i \<le> length html \<and> RegExp_search P (locate_pattern P e) (js ''i'') html = Found i
        \<and> 10 \<notin> set (take i html) \<and> 13 \<notin> set (take i html)
      \<longrightarrow> column (emitted P html sev k msg (Some e) rec q) = Some (int i + 1))"
proof -
  have "audit_document P html doc = Inr fs \<Longrightarrow> f \<in> set fs \<Longrightarrow> line_column_sound f"
    using audit_document_all [of line_column_sound P html doc fs] emitted_line_column
    by (simp add: list_all_iff)
  moreover have "i \<le> length html \<Longrightarrow> RegExp_search P (locate_pattern P e) (js ''i'') html = Found i
      \<Longrightarrow> 10 \<notin> set (take i html) \<Longrightarrow> 13 \<notin> set (take i html)
      \<Longrightarrow> column (emitted P html sev k msg (Some e) rec q) = Some (int i + 1)"
    using emitted_node_found(2) [of i html P e sev k msg rec q] column_at_first_line [of i html]
    by simp
  ultimately show ?thesis using emitted_line_column [of P html sev k msg el rec q] by blast
qed

theorem findings_line_column_witness:
  "0 \<le> length html_bare
   \<and> RegExp_search (example_platform doc_bare)
        (locate_pattern (example_platform doc_bare) (documentElement doc_bare)) (js ''i'')
        html_bare = Found 0
   \<and> 10 \<notin> set (take 0 html_bare) \<and> 13 \<notin> set (take 0 html_bare)
   \<and> column (emitted (example_platform doc_bare) html_bare Error (js ''lang-missing'') []
        (Some (documentElement doc_bare)) None None) = Some 1
   \<and> (\<exists>fs f. audit_document (example_platform doc_bare) html_bare doc_bare = Inr fs
        \<and> f \<in> set fs \<and> line f = Some 1 \<and> line_column_sound f)"
proof -
  let ?P = "example_platform doc_bare"
  have s: "RegExp_search ?P (locate_pattern ?P (documentElement doc_bare)) (js ''i'') html_bare = Found 0"
    by (rule bare_root_search)
  have c: "column (emitted ?P html_bare Error (js ''lang-missing'') []
        (Some (documentElement doc_bare)) None None) = Some 1"
    using findings_line_column [of ?P html_bare Error "js ''lang-missing''" "[]" None None None
        doc_bare "[]" undefined 0 "documentElement doc_bare"] s
    by simp
  obtain fs g where a: "audit_document ?P html_bare doc_bare = Inr fs" and g: "g \<in> set fs"
    and lg: "line g = Some 1"
    using bare_audit [of ?P] bare_lang_line [of ?P] by fastforce
  have "line_column_sound g"
    using findings_line_column [of ?P html_bare _ _ _ _ _ _ doc_bare fs g] a g by blast
  then show ?thesis using s c a g lg by auto
qed

section \<open>Heading order\<close>

lemma not_jump_0: "\<not> is_jump hs 0"
  by (simp add: is_jump_def)

lemma emitted_fields:
  "id_key (emitted P html sev i msg el rec q) = i"
  "severity (emitted P html sev i msg el rec q) = sev"
  "message (emitted P html sev i msg el rec q) = msg"
  "selector (emitted P html sev i msg el rec q) = map_option (cssSelector P) el"
  "recommendation (emitted P html sev i msg el rec q) = rec"
  by (simp_all add: emitted_def Let_def)

lemma headings_loop_Cons:
  "headings_loop P html (h # hs) idx prev n out =
     (if prev \<noteq> 0 \<and> int (heading_level h) - int prev > 1
      then headings_loop P html hs (idx + 1) (heading_level h) (n + 1)
             (out @ [emitted P html Warning (js ''heading-order-'' @ decimal idx)
                (js ''Heading jumps from H'' @ decimal prev @ js '' to H''
                   @ decimal (heading_level h) @ js ''.'')
                (Some h) (Some (js ''Adjust heading levels to avoid skipping levels.'')) None])
      else headings_loop P html hs (idx + 1) (heading_level h) n out)"
  by (simp add: Let_def heading_level_def push_def)

lemma headings_loop_spec:
  assumes "hs = pre @ suf" and "prev = (if pre = [] then 0 else heading_level (last pre))"
  shows "headings_loop P html suf (length pre) prev n out
           = (n + length (filter (is_jump hs) [length pre..<length hs]),
              out @ map (heading_warning P html hs) (filter (is_jump hs) [length pre..<length hs]))"
  using assms
proof (induction suf arbitrary: pre prev n out)
  case Nil
  then show ?case by simp
next
  case (Cons h suf)
  let ?i = "length pre"
  have hs: "hs = (pre @ [h]) @ suf" using Cons.prems(1) by simp
  have lvl: "heading_level (hs ! ?i) = heading_level h" and hi: "hs ! ?i = h"
    using Cons.prems(1) by simp_all
  have prev': "heading_level h = (if pre @ [h] = [] then 0 else heading_level (last (pre @ [h])))"
    by simp
  have "?i < length hs" using Cons.prems(1) by simp
  then have upt: "[?i..<length hs] = ?i # [length (pre @ [h])..<length hs]"
    using upt_conv_Cons [of ?i "length hs"] by simp
  have cond: "is_jump hs ?i \<longleftrightarrow> prev \<noteq> 0 \<and> int (heading_level h) - int prev > 1"
  proof (cases "pre = []")
    case True
    then show ?thesis using Cons.prems(2) not_jump_0 [of hs] by simp
  next
    case False
    then have "hs ! (?i - 1) = last pre"
      using Cons.prems(1) by (simp add: nth_append last_conv_nth)
    then show ?thesis using Cons.prems(2) False lvl by (auto simp: is_jump_def)
  qed
  have prevl: "is_jump hs ?i \<Longrightarrow> prev = heading_level (hs ! (?i - 1))"
  proof -
    assume j: "is_jump hs ?i"
    then have ne: "pre \<noteq> []" using cond Cons.prems(2) by auto
    then have "hs ! (?i - 1) = last pre"
      using Cons.prems(1) by (simp add: nth_append last_conv_nth)
    then show ?thesis using Cons.prems(2) ne by simp
  qed
  show ?case
  proof (cases "is_jump hs ?i")
    case True
    then have c: "prev \<noteq> 0 \<and> int (heading_level h) - int prev > 1" using cond by simp
    have w: "emitted P html Warning (js ''heading-order-'' @ decimal ?i)
       (js ''Heading jumps from H'' @ decimal prev @ js '' to H''
          @ decimal (heading_level h) @ js ''.'')
       (Some h) (Some (js ''Adjust heading levels to avoid skipping levels.'')) None
       = heading_warning P html hs ?i"
      using prevl [OF True] lvl hi by (simp add: heading_warning_def)
    show ?thesis
      unfolding headings_loop_Cons upt
      using Cons.IH [OF hs prev', of "n + 1" "out @ [heading_warning P html hs ?i]"] c True w
      by (simp del: upt.simps headings_loop.simps)
  next
    case False
    then have c: "\<not> (prev \<noteq> 0 \<and> int (heading_level h) - int prev > 1)" using cond by simp
    show ?thesis
      unfolding headings_loop_Cons upt
      using Cons.IH [OF hs prev', of n out] c False
      by (auto simp del: upt.simps headings_loop.simps)
  qed
qed

lemma filter_jump_upt: "filter (is_jump hs) [0..<length hs] = heading_jumps hs"
proof (cases "length hs")
  case 0
  then show ?thesis by (simp add: heading_jumps_def)
next
  case (Suc m)
  then have "[0..<length hs] = 0 # [1..<length hs]" by (simp add: upt_conv_Cons)
  then show ?thesis by (simp add: heading_jumps_def not_jump_0 del: upt.simps)
qed

lemma headings_loop_result:
  "headings_loop P html hs 0 0 0 []
     = (length (heading_jumps hs), map (heading_warning P html hs) (heading_jumps hs))"
  using headings_loop_spec [of hs "[]" hs 0 P html 0 "[]"] by (simp add: filter_jump_upt)

lemma check_heading_order_spec:
  "check_heading_order P html doc [] =
     (let hs = querySelectorAll doc isHeading
      in if heading_jumps hs = []
         then (case hs of
                 h # _ \<Rightarrow> [emitted P html Success (js ''heading-order-ok'')
                              (js ''Heading hierarchy is consistent.'') (Some h) None None]
               | [] \<Rightarrow> [])
         else map (heading_warning P html hs) (heading_jumps hs))"
  by (simp add: check_heading_order_def Let_def headings_loop_result push_def split: list.split)

lemma jump_headings:
  "querySelectorAll doc_jump isHeading
     = [Element (js ''H1'') [] [TextNode (js ''A'')], Element (js ''H3'') [] [TextNode (js ''B'')]]"
  by (simp add: querySelectorAll_def doc_jump_def isHeading_def hasTag_def asciiLower_def
      lower_unit_def js_def)

lemma jump_positions:
  "heading_jumps [Element (js ''H1'') [] [TextNode (js ''A'')], Element (js ''H3'') [] [TextNode (js ''B'')]]
     = [1]"
  by (simp add: heading_jumps_def is_jump_def heading_level_def Number_digit_def js_def)

lemma jump_findings:
  "map (\<lambda>f. (id_key f, severity f, message f)) (check_heading_order P html_jump doc_jump [])
     = [(js ''heading-order-1'', Warning, js ''Heading jumps from H1 to H3.'')]"
  unfolding check_heading_order_spec Let_def jump_headings jump_positions
  by (simp add: heading_warning_def emitted_fields heading_level_def Number_digit_def
      decimal.simps js_def)

lemma lower_digit: "lower_unit d = 48 + k \<Longrightarrow> k < 10 \<Longrightarrow> d = 48 + k"
  by (auto simp: lower_unit_def split: if_splits)

lemma heading_level_range:
  assumes "isHeading h"
  shows "1 \<le> heading_level h \<and> heading_level h \<le> 6"
proof -
  have "\<exists>c d. tagName h = [c, d] \<and> lower_unit d \<in> {49, 50, 51, 52, 53, 54}"
    using assms by (auto simp: isHeading_def hasTag_def asciiLower_def js_def)
  then obtain c d where t: "tagName h = [c, d]" and d: "lower_unit d \<in> {49, 50, 51, 52, 53, 54}"
    by blast
  have "d \<in> {49, 50, 51, 52, 53, 54}"
    using d by (auto simp: lower_unit_def split: if_splits)
  then show ?thesis using t by (auto simp: heading_level_def Number_digit_def)
qed

text \<open>
  Claim C5. The heading-order check walks the headings h1 to h6 in document order. For
  every position at which the level exceeds the previous level, when that is not 0, by
  more than 1, it emits one warning, whose id is \<open>heading-order-\<close> followed by the
  position and whose message cites the jump; the warnings come in document order. Without
  a jump it emits one success on the first heading when there is a heading, and nothing
  otherwise. For \<^verbatim>\<open><h1>A</h1><h3>B</h3>\<close> it emits the one warning
  \<open>heading-order-1\<close>, "Heading jumps from H1 to H3.".
\<close>

theorem heading_order_findings:
  "check_heading_order P html doc out =
     out @
     (let hs = querySelectorAll doc isHeading
      in if heading_jumps hs = []
         then (case hs of
                 h # _ \<Rightarrow> [emitted P html Success (js ''heading-order-ok'')
                              (js ''Heading hierarchy is consistent.'') (Some h) None None]
               | [] \<Rightarrow> [])
         else map (heading_warning P html hs) (heading_jumps hs))
   \<and> map (\<lambda>f. (id_key f, severity f, message f)) (check_heading_order P html_jump doc_jump [])
       = [(js ''heading-order-1'', Warning, js ''Heading jumps from H1 to H3.'')]"
  using check_heading_order_append [of P html doc out] check_heading_order_spec [of P html doc]
    jump_findings [of P]
  by simp

text \<open>
  Claim C8. The result of an audit is the findings of the checks in the order in which
  the checks run, each check contributing its findings in the order in which it emits
  them: nothing is sorted again. The result is a function of the markup (and of the
  platform), so that two runs on the same markup give the same findings, with the same
  lines, columns and snippets.
\<close>

theorem audit_order_deterministic:
  "audit_document P html doc
     = (case check_dup_ids P html doc [] of
          Inl e \<Rightarrow> Inl e
        | Inr d \<Rightarrow> Inr (findings_before_dup_ids P html doc @ d))
   \<and> runSeoA11yAudit P html = audit_document P html (parseFromString P html)
   \<and> (html' = html \<longrightarrow> runSeoA11yAudit P html' = runSeoA11yAudit P html)"
  using audit_document_sequence [of P html doc] by (simp add: runSeoA11yAudit_def)

theorem audit_order_deterministic_witness:
  "html_bare = html_bare
   \<and> runSeoA11yAudit (example_platform doc_bare) html_bare
       = runSeoA11yAudit (example_platform doc_bare) html_bare
   \<and> audit_document (example_platform doc_bare) html_bare doc_bare
       = Inr (findings_before_dup_ids (example_platform doc_bare) html_bare doc_bare
              @ [emitted (example_platform doc_bare) html_bare Success (js ''dup-ids-ok'')
                   (js ''No duplicate ids found.'') (Some (documentElement doc_bare)) None None])"
  using audit_order_deterministic [of "example_platform doc_bare" html_bare doc_bare html_bare]
    bare_dup_ids [of "example_platform doc_bare"]
  by simp

section \<open>The pattern of the locator\<close>

lemma trim_Nil: "trim [] = []"
  by (simp add: trim_def)

lemma usable_nonblank: "usable (getAttribute el k) = nonblank_value el k"
  by (auto simp: usable_def nonblank_value_def trim_Nil split: option.splits)

lemma candidate_attrs_map:
  "candidate_attrs el = map (\<lambda>k. (k, getAttribute el k)) priority_attributes"
  by (simp add: candidate_attrs_def priority_attributes_def)

lemma find_map_pair:
  "find (\<lambda>(k, v). Q v) (map (\<lambda>k. (k, g k)) ks) = map_option (\<lambda>k. (k, g k)) (find (\<lambda>k. Q (g k)) ks)"
  by (induction ks) auto

lemma find_candidate:
  "find (\<lambda>(k, v). usable v) (candidate_attrs el)
     = map_option (\<lambda>k. (k, getAttribute el k)) (disambiguating_attribute el)"
  by (simp add: candidate_attrs_map find_map_pair usable_nonblank disambiguating_attribute_def)

lemma disambiguating_has_value:
  assumes "disambiguating_attribute el = Some k"
  shows "\<exists>v. getAttribute el k = Some v \<and> trim v \<noteq> []"
proof -
  have "nonblank_value el k"
    using assms by (auto simp: disambiguating_attribute_def find_Some_iff)
  then show ?thesis by (auto simp: nonblank_value_def split: option.splits)
qed

lemma locate_pattern_spec:
  "locate_pattern P el =
     (case disambiguating_attribute el of
        Some k \<Rightarrow> attr_pattern (toLowerCase P (tagName el)) k
                    (escapeRegExp (orEmpty (getAttribute el k)))
      | None \<Rightarrow> tag_pattern (toLowerCase P (tagName el)))"
proof (cases "disambiguating_attribute el")
  case None
  then show ?thesis by (simp add: locate_pattern_def Let_def find_candidate)
next
  case (Some k)
  then obtain v where "getAttribute el k = Some v" using disambiguating_has_value by blast
  then show ?thesis using Some by (simp add: locate_pattern_def Let_def find_candidate orEmpty_def)
qed

lemma meta_is_syntax: "isRegexMeta c = isSyntaxCharacter c"
  by (auto simp: isRegexMeta_def isSyntaxCharacter_def js_def)

lemma escapeRegExp_syntax:
  "escapeRegExp v = concat (map (\<lambda>c. if isSyntaxCharacter c then [92, c] else [c]) v)"
  by (simp add: escapeRegExp_def meta_is_syntax)

lemma escapeRegExp_Cons:
  "escapeRegExp (c # v) = (if isSyntaxCharacter c then [92, c] else [c]) @ escapeRegExp v"
  by (simp add: escapeRegExp_syntax)

lemma star_syntax: "isSyntaxCharacter 42"
  by (simp add: isSyntaxCharacter_def js_def)

lemma escaped_no_star:
  assumes "rest = [] \<or> hd rest \<noteq> 42"
  shows "escapeRegExp v @ rest = [] \<or> hd (escapeRegExp v @ rest) \<noteq> 42"
proof (cases v)
  case Nil
  then show ?thesis using assms by (simp add: escapeRegExp_def)
next
  case (Cons c w)
  then show ?thesis using star_syntax by (auto simp: escapeRegExp_Cons)
qed

lemma text_no_star:
  assumes "\<not> list_ex isSyntaxCharacter s" and "rest = [] \<or> hd rest \<noteq> 42"
  shows "s @ rest = [] \<or> hd (s @ rest) \<noteq> 42"
proof (cases s)
  case Nil
  then show ?thesis using assms by simp
next
  case (Cons c w)
  then show ?thesis using star_syntax assms(1) by auto
qed

lemma parse_rx_one:
  assumes "next_atom p = Some (a, r)" and "\<not> startsWith p [92, 98]" and "r = [] \<or> hd r \<noteq> 42"
  shows "parse_rx p = map_option (Cons (One a)) (parse_rx r)"
proof -
  have "p \<noteq> []" using assms(1) by (auto simp: next_atom_def)
  then show ?thesis
    using assms by (subst parse_rx.simps) (auto simp: parse_rx.simps [of "[]"] split: list.splits)
qed

lemma parse_rx_star:
  assumes "next_atom p = Some (a, 42 # r)" and "\<not> startsWith p [92, 98]"
  shows "parse_rx p = map_option (Cons (Star a)) (parse_rx r)"
proof -
  have "p \<noteq> []" using assms(1) by (auto simp: next_atom_def)
  then show ?thesis using assms by (subst parse_rx.simps) simp
qed

lemma next_atom_escaped:
  "isSyntaxCharacter c \<Longrightarrow> next_atom (92 # c # r) = Some (Lit c, r)"
  by (auto simp: next_atom_def isSyntaxCharacter_def js_def)

lemma next_atom_plain:
  "\<not> isSyntaxCharacter c \<Longrightarrow> next_atom (c # r) = Some (Lit c, r)"
  by (auto simp: next_atom_def isSyntaxCharacter_def js_def startsWith_def)

lemma parse_plain:
  assumes "\<not> isSyntaxCharacter c" and "r = [] \<or> hd r \<noteq> 42"
  shows "parse_rx (c # r) = map_option (Cons (One (Lit c))) (parse_rx r)"
proof -
  have "\<not> startsWith (c # r) [92, 98]"
    using assms(1) by (auto simp: startsWith_def isSyntaxCharacter_def)
  then show ?thesis using parse_rx_one [OF next_atom_plain [OF assms(1)] _ assms(2)] by simp
qed

lemma parse_space_star: "parse_rx (92 # 115 # 42 # r) = map_option (Cons (Star Space)) (parse_rx r)"
proof -
  have "next_atom (92 # 115 # 42 # r) = Some (Space, 42 # r)" by (simp add: next_atom_def)
  moreover have "\<not> startsWith (92 # 115 # 42 # r) [92, 98]" by (simp add: startsWith_def)
  ultimately show ?thesis by (rule parse_rx_star)
qed

lemma parse_notgt_star:
  "parse_rx (91 # 94 # 62 # 93 # 42 # r) = map_option (Cons (Star NotGt)) (parse_rx r)"
proof -
  have "next_atom (91 # 94 # 62 # 93 # 42 # r) = Some (NotGt, 42 # r)"
    by (simp add: next_atom_def startsWith_def js_def)
  moreover have "\<not> startsWith (91 # 94 # 62 # 93 # 42 # r) [92, 98]" by (simp add: startsWith_def)
  ultimately show ?thesis by (rule parse_rx_star)
qed

lemma parse_quote:
  assumes "r = [] \<or> hd r \<noteq> 42"
  shows "parse_rx (91 # 34 # 39 # 93 # r) = map_option (Cons (One Quote)) (parse_rx r)"
proof -
  have "next_atom (91 # 34 # 39 # 93 # r) = Some (Quote, r)"
    by (simp add: next_atom_def startsWith_def js_def)
  moreover have "\<not> startsWith (91 # 34 # 39 # 93 # r) [92, 98]" by (simp add: startsWith_def)
  ultimately show ?thesis using assms by (rule parse_rx_one)
qed

lemma parse_boundary: "parse_rx (92 # 98 # r) = map_option (Cons WordBoundary) (parse_rx r)"
  by (subst parse_rx.simps) (simp add: startsWith_def)

lemma parse_text:
  assumes "\<not> list_ex isSyntaxCharacter s" and "rest = [] \<or> hd rest \<noteq> 42"
  shows "parse_rx (s @ rest) = map_option (\<lambda>its. lits s @ its) (parse_rx rest)"
  using assms(1)
proof (induction s)
  case Nil
  then show ?case by (simp add: lits_def option.map_ident)
next
  case (Cons c s)
  have ns: "\<not> list_ex isSyntaxCharacter s" and c: "\<not> isSyntaxCharacter c"
    using Cons.prems by simp_all
  have st: "s @ rest = [] \<or> hd (s @ rest) \<noteq> 42" using text_no_star [OF ns assms(2)] .
  have "parse_rx (c # s @ rest) = map_option (Cons (One (Lit c))) (parse_rx (s @ rest))"
    using parse_plain [OF c st] .
  then show ?case using Cons.IH [OF ns] by (simp add: lits_def option.map_comp comp_def)
qed

lemma parse_escaped_append:
  assumes "rest = [] \<or> hd rest \<noteq> 42"
  shows "parse_rx (escapeRegExp v @ rest) = map_option (\<lambda>its. lits v @ its) (parse_rx rest)"
proof (induction v)
  case Nil
  then show ?case by (simp add: escapeRegExp_def lits_def option.map_ident)
next
  case (Cons c v)
  let ?r = "escapeRegExp v @ rest"
  have ns: "?r = [] \<or> hd ?r \<noteq> 42" using escaped_no_star [OF assms] .
  show ?case
  proof (cases "isSyntaxCharacter c")
    case True
    have nb: "\<not> startsWith (92 # c # ?r) [92, 98]"
      using True by (auto simp: startsWith_def isSyntaxCharacter_def js_def)
    have "parse_rx (92 # c # ?r) = map_option (Cons (One (Lit c))) (parse_rx ?r)"
      using parse_rx_one [OF next_atom_escaped [OF True] nb ns] .
    then show ?thesis
      using True Cons by (simp add: escapeRegExp_Cons lits_def option.map_comp comp_def)
  next
    case False
    have "parse_rx (c # ?r) = map_option (Cons (One (Lit c))) (parse_rx ?r)"
      using parse_plain [OF False ns] .
    then show ?thesis
      using False Cons by (simp add: escapeRegExp_Cons lits_def option.map_comp comp_def)
  qed
qed

lemma parse_gt: "parse_rx [62] = Some [One (Lit 62)]"
proof -
  have "\<not> isSyntaxCharacter 62" by (simp add: isSyntaxCharacter_def js_def)
  then show ?thesis using parse_plain [of 62 "[]"] by (simp add: parse_rx.simps [of "[]"])
qed

lemma parse_attr_pattern:
  assumes "\<not> list_ex isSyntaxCharacter tn" and "\<not> list_ex isSyntaxCharacter k"
  shows "parse_rx (attr_pattern tn k (escapeRegExp v)) = Some (opening_tag_with tn k v)"
proof -
  define r5 :: jstring where "r5 = [91, 34, 39, 93, 91, 94, 62, 93, 42, 62]"
  define r3 where "r3 = 92 # 115 # 42 # 61 # 92 # 115 # 42 # 91 # 34 # 39 # 93 # (escapeRegExp v @ r5)"
  define r1 where "r1 = 91 # 94 # 62 # 93 # 42 # 92 # 98 # (k @ r3)"
  have lt: "\<not> isSyntaxCharacter 60" and eq: "\<not> isSyntaxCharacter 61"
    by (simp_all add: isSyntaxCharacter_def js_def)
  have e5: "parse_rx r5 = Some [One Quote, Star NotGt, One (Lit 62)]"
    by (simp add: r5_def parse_quote parse_notgt_star parse_gt)
  have h5: "r5 = [] \<or> hd r5 \<noteq> 42" by (simp add: r5_def)
  have e4: "parse_rx (escapeRegExp v @ r5) = Some (lits v @ [One Quote, Star NotGt, One (Lit 62)])"
    using parse_escaped_append [OF h5, of v] e5 by simp
  have h4: "escapeRegExp v @ r5 = [] \<or> hd (escapeRegExp v @ r5) \<noteq> 42"
    using escaped_no_star [OF h5] .
  have e3: "parse_rx r3 = Some ([Star Space, One (Lit 61), Star Space, One Quote] @ lits v
      @ [One Quote, Star NotGt, One (Lit 62)])"
    using parse_plain [OF eq, of "92 # 115 # 42 # 91 # 34 # 39 # 93 # (escapeRegExp v @ r5)"]
      parse_quote [OF h4] e4
    by (simp add: r3_def parse_space_star)
  have h3: "r3 = [] \<or> hd r3 \<noteq> 42" by (simp add: r3_def)
  have e2: "parse_rx (k @ r3) = Some (lits k @ [Star Space, One (Lit 61), Star Space, One Quote]
      @ lits v @ [One Quote, Star NotGt, One (Lit 62)])"
    using parse_text [OF assms(2) h3] e3 by simp
  have e1: "parse_rx r1 = Some ([Star NotGt, WordBoundary] @ lits k
      @ [Star Space, One (Lit 61), Star Space, One Quote] @ lits v
      @ [One Quote, Star NotGt, One (Lit 62)])"
    using e2 by (simp add: r1_def parse_notgt_star parse_boundary)
  have h1: "r1 = [] \<or> hd r1 \<noteq> 42" by (simp add: r1_def)
  have e0: "parse_rx (tn @ r1) = Some (lits tn @ [Star NotGt, WordBoundary] @ lits k
      @ [Star Space, One (Lit 61), Star Space, One Quote] @ lits v
      @ [One Quote, Star NotGt, One (Lit 62)])"
    using parse_text [OF assms(1) h1] e1 by simp
  have "parse_rx (60 # 92 # 115 # 42 # (tn @ r1)) = Some (opening_tag_with tn k v)"
    using parse_plain [OF lt, of "92 # 115 # 42 # (tn @ r1)"] e0
    by (simp add: parse_space_star opening_tag_with_def)
  moreover have "attr_pattern tn k (escapeRegExp v) = 60 # 92 # 115 # 42 # (tn @ r1)"
    by (simp add: attr_pattern_def js_def r1_def r3_def r5_def)
  ultimately show ?thesis by simp
qed

lemma parse_tag_pattern:
  assumes "\<not> list_ex isSyntaxCharacter tn"
  shows "parse_rx (tag_pattern tn) = Some (bare_opening_tag tn)"
proof -
  define r1 :: jstring where "r1 = [92, 98, 91, 94, 62, 93, 42, 62]"
  have lt: "\<not> isSyntaxCharacter 60" by (simp add: isSyntaxCharacter_def js_def)
  have e1: "parse_rx r1 = Some [WordBoundary, Star NotGt, One (Lit 62)]"
    by (simp add: r1_def parse_boundary parse_notgt_star parse_gt)
  have h1: "r1 = [] \<or> hd r1 \<noteq> 42" by (simp add: r1_def)
  have e0: "parse_rx (tn @ r1) = Some (lits tn @ [WordBoundary, Star NotGt, One (Lit 62)])"
    using parse_text [OF assms h1] e1 by simp
  have "parse_rx (60 # 92 # 115 # 42 # (tn @ r1)) = Some (bare_opening_tag tn)"
    using parse_plain [OF lt, of "92 # 115 # 42 # (tn @ r1)"] e0
    by (simp add: parse_space_star bare_opening_tag_def)
  moreover have "tag_pattern tn = 60 # 92 # 115 # 42 # (tn @ r1)"
    by (simp add: tag_pattern_def js_def r1_def)
  ultimately show ?thesis by simp
qed

lemma priority_plain:
  assumes "disambiguating_attribute el = Some k"
  shows "\<not> list_ex isSyntaxCharacter k"
proof -
  have "k \<in> set priority_attributes"
    using assms by (auto simp: disambiguating_attribute_def find_Some_iff)
  then show ?thesis
    by (auto simp: priority_attributes_def isSyntaxCharacter_def js_def)
qed

lemma lits_match:
  "matches_here P (lits v) prev s
     = (map (canonicalize P) (take (length v) s) = map (canonicalize P) v)"
proof (induction v arbitrary: prev s)
  case Nil
  then show ?case by (simp add: lits_def)
next
  case (Cons c v)
  show ?case
  proof (cases s)
    case Nil
    then show ?thesis by (simp add: lits_def)
  next
    case (Cons d s')
    then show ?thesis using Cons.IH [of "Some d" s'] by (auto simp: lits_def)
  qed
qed

lemma locateElement_found_iff:
  "(loc_line (locateElement P el html) \<noteq> None)
     = (case RegExp_search P (locate_pattern P el) (js ''i'') html of
          Found i \<Rightarrow> True | _ \<Rightarrow> False)"
  by (cases "RegExp_search P (locate_pattern P el) (js ''i'') html")
    (simp_all add: locateElement_def Let_def empty_locator_def)

lemma upper_search:
  "RegExp_search P (locate_pattern P meta_el) (js ''i'') html_upper = Found 0"
  by (simp add: locate_pattern_def candidate_attrs_def usable_def attr_pattern_def tag_pattern_def
      escapeRegExp_def getAttribute_def meta_el_def html_upper_def js_def trim_def isWhiteSpace_def
      toLowerCase_def asciiLower_def lower_unit_def startsWith_def parse_rx.simps next_atom_def
      RegExp_search_def canonicalize_def upper_unit_def isWordChar_def isAsciiAlnum_def
      isRegexMeta_def isSyntaxCharacter_def)

text \<open>
  Claim C7. The by-node locator takes the first of the attributes id, name, property, rel,
  href, src whose value is not empty after trimming, and searches, with the flag \<open>i\<close>
  (without regard to letter case), for the pattern
  \<^verbatim>\<open><\s*TAG[^>]*\bATTR\s*=\s*["']VALUE["'][^>]*>\<close>, in which the tag name is lower-cased
  and every syntax character of the value has a backslash before it; without such an
  attribute the pattern is \<^verbatim>\<open><\s*TAG\b[^>]*>\<close>, the bare opening tag. For a tag name
  without syntax characters the engine reads the pattern as an opening tag with that
  attribute and value, or as the bare opening tag, the value standing for itself: it
  matches the text that equals it up to letter case.
\<close>

theorem locate_pattern_priority:
  \<open>locate_pattern P el =
     (let tn = toLowerCase P (tagName el)
      in case disambiguating_attribute el of
           Some k \<Rightarrow>
             js ''<'' @ [92] @ js ''s*'' @ tn @ js ''[^>]*'' @ [92] @ js ''b'' @ k
             @ [92] @ js ''s*='' @ [92] @ js ''s*['' @ [34, 39] @ js '']''
             @ concat (map (\<lambda>c. if isSyntaxCharacter c then [92, c] else [c])
                 (orEmpty (getAttribute el k)))
             @ js ''['' @ [34, 39] @ js ''][^>]*>''
         | None \<Rightarrow> js ''<'' @ [92] @ js ''s*'' @ tn @ [92] @ js ''b[^>]*>'')
   \<and> (\<not> list_ex isSyntaxCharacter (toLowerCase P (tagName el)) \<longrightarrow>
        parse_rx (locate_pattern P el) =
          Some (case disambiguating_attribute el of
                  Some k \<Rightarrow> opening_tag_with (toLowerCase P (tagName el)) k
                              (orEmpty (getAttribute el k))
                | None \<Rightarrow> bare_opening_tag (toLowerCase P (tagName el))))
   \<and> matches_here P (lits v) prev s
        = (map (canonicalize P) (take (length v) s) = map (canonicalize P) v)
   \<and> (loc_line (locateElement P el html) \<noteq> None)
        = (case RegExp_search P (locate_pattern P el) (js ''i'') html of
             Found i \<Rightarrow> True | _ \<Rightarrow> False)
   \<and> RegExp_search P (locate_pattern P meta_el) (js ''i'') html_upper = Found 0\<close>
proof -
  have 1: \<open>locate_pattern P el =
     (let tn = toLowerCase P (tagName el)
      in case disambiguating_attribute el of
           Some k \<Rightarrow>
             js ''<'' @ [92] @ js ''s*'' @ tn @ js ''[^>]*'' @ [92] @ js ''b'' @ k
             @ [92] @ js ''s*='' @ [92] @ js ''s*['' @ [34, 39] @ js '']''
             @ concat (map (\<lambda>c. if isSyntaxCharacter c then [92, c] else [c])
                 (orEmpty (getAttribute el k)))
             @ js ''['' @ [34, 39] @ js ''][^>]*>''
         | None \<Rightarrow> js ''<'' @ [92] @ js ''s*'' @ tn @ [92] @ js ''b[^>]*>'')\<close>
    by (simp add: locate_pattern_spec Let_def attr_pattern_def tag_pattern_def escapeRegExp_syntax
        split: option.split)
  have 2: "\<not> list_ex isSyntaxCharacter (toLowerCase P (tagName el)) \<Longrightarrow>
        parse_rx (locate_pattern P el) =
          Some (case disambiguating_attribute el of
                  Some k \<Rightarrow> opening_tag_with (toLowerCase P (tagName el)) k
                              (orEmpty (getAttribute el k))
                | None \<Rightarrow> bare_opening_tag (toLowerCase P (tagName el)))"
  proof (cases "disambiguating_attribute el")
    case None
    assume "\<not> list_ex isSyntaxCharacter (toLowerCase P (tagName el))"
    then show ?thesis using None by (simp add: locate_pattern_spec parse_tag_pattern)
  next
    case (Some k)
    assume "\<not> list_ex isSyntaxCharacter (toLowerCase P (tagName el))"
    then show ?thesis
      using Some priority_plain [OF Some] by (simp add: locate_pattern_spec parse_attr_pattern)
  qed
  show ?thesis
    using 1 2 lits_match [of P v prev s] locateElement_found_iff [of P el html] upper_search [of P]
    by blast
qed

theorem locate_pattern_priority_witness:
  "\<not> list_ex isSyntaxCharacter (toLowerCase (example_platform doc_meta) (tagName meta_el))
   \<and> parse_rx (locate_pattern (example_platform doc_meta) meta_el)
       = Some (opening_tag_with (js ''meta'') (js ''name'') (js ''description''))"
proof -
  let ?P = "example_platform doc_meta"
  have t: "toLowerCase ?P (tagName meta_el) = js ''meta''"
    by (simp add: meta_el_def toLowerCase_def asciiLower_def lower_unit_def js_def)
  have n: "\<not> list_ex isSyntaxCharacter (js ''meta'')"
    by (simp add: isSyntaxCharacter_def js_def)
  have d: "disambiguating_attribute meta_el = Some (js ''name'')"
    by (simp add: disambiguating_attribute_def priority_attributes_def nonblank_value_def
        meta_el_def getAttribute_def js_def trim_def isWhiteSpace_def)
  have v: "orEmpty (getAttribute meta_el (js ''name'')) = js ''description''"
    by (simp add: meta_el_def getAttribute_def orEmpty_def js_def)
  have "\<not> list_ex isSyntaxCharacter (toLowerCase ?P (tagName meta_el)) \<longrightarrow>
        parse_rx (locate_pattern ?P meta_el) =
          Some (case disambiguating_attribute meta_el of
                  Some k \<Rightarrow> opening_tag_with (toLowerCase ?P (tagName meta_el)) k
                              (orEmpty (getAttribute meta_el k))
                | None \<Rightarrow> bare_opening_tag (toLowerCase ?P (tagName meta_el)))"
    using locate_pattern_priority [of ?P meta_el] by blast
  then show ?thesis by (simp add: t n d v)
qed

section \<open>The title check\<close>

lemma emitted_by_node: "located_by_node P html e (emitted P html sev i msg (Some e) rec q)"
  by (simp add: located_by_node_def emitted_def Let_def)

lemma emitted_by_query:
  "q \<noteq> [] \<Longrightarrow> located_by_query html q (emitted P html sev i msg None rec (Some q))"
  by (simp add: located_by_query_def emitted_def Let_def)

lemma check_title_cases:
  "check_title P html doc [] =
     [if title_text doc = []
      then emitted P html Error (js ''title-missing'') (js ''Missing <title>.'')
             (case querySelector doc (hasTag ''title'') of Some t \<Rightarrow> Some t | None \<Rightarrow> head doc)
             (Some (js ''Add a descriptive, unique <title> (10'' @ [8211] @ js ''60 chars).''))
             (Some (js ''<title>''))
      else if length (title_text doc) < 10 \<or> length (title_text doc) > 60
      then emitted P html Warning (js ''title-length'')
             (js ''Title length '' @ decimal (length (title_text doc)) @ js '' (aim 10'' @ [8211]
                @ js ''60).'')
             (querySelector doc (hasTag ''title''))
             (Some (js ''Rewrite title to recommended length.'')) None
      else emitted P html Success (js ''title-ok'')
             (js ''Title present and well sized ('' @ decimal (length (title_text doc))
                @ js '').'')
             (querySelector doc (hasTag ''title'')) None None]"
  by (simp add: check_title_def Let_def push_def title_text_def)

lemma title_nonempty: "js ''<title>'' \<noteq> []"
  by (simp add: js_def)

lemma home_title: "title_text doc_home = js ''Home''"
  by (simp add: title_text_def doc_home_def querySelector_def hasTag_def str_ev)

lemma welcome_title: "title_text doc_welcome = js ''Welcome home''"
  by (simp add: title_text_def doc_welcome_def querySelector_def hasTag_def str_ev)

lemma bare_title: "querySelector doc_bare (hasTag ''title'') = None"
  by (simp add: doc_bare_def querySelector_def hasTag_def str_ev)

lemma bare_head: "head doc_bare = Some (Element (js ''HEAD'') [] [])"
  by (simp add: doc_bare_def head_def hasTag_def str_ev)

lemma headless_title: "querySelector doc_headless (hasTag ''title'') = None"
  by (simp add: doc_headless_def querySelector_def hasTag_def str_ev)

lemma headless_head: "head doc_headless = None"
  by (simp add: doc_headless_def head_def hasTag_def str_ev)

lemma bare_head_search:
  "RegExp_search P (locate_pattern P (Element (js ''HEAD'') [] [])) (js ''i'') html_bare = Found 6"
  by (simp add: pat_ev html_bare_def str_ev rx_ev)

lemma bare_title_query: "indexOf html_bare (js ''<title>'') = - 1"
  by (simp add: html_bare_def str_ev)

lemma bare_title_finding:
  "check_title P html_bare doc_bare []
     = [emitted P html_bare Error (js ''title-missing'') (js ''Missing <title>.'')
          (Some (Element (js ''HEAD'') [] []))
          (Some (js ''Add a descriptive, unique <title> (10'' @ [8211] @ js ''60 chars).''))
          (Some (js ''<title>''))]"
  by (simp add: check_title_cases title_text_def bare_title bare_head orEmpty_def)

text \<open>
  Claim C4 as stated fails where a document has a head and no title: the finding is
  located on the head node (line 1, column 7 in the example), not by the literal query
  \<^verbatim>\<open><title>\<close>, which finds nothing there.
\<close>

theorem title_query_counterexample:
  "querySelector doc_bare (hasTag ''title'') = None
   \<and> map line (check_title (example_platform doc_bare) html_bare doc_bare []) = [Some 1]
   \<and> map column (check_title (example_platform doc_bare) html_bare doc_bare []) = [Some 7]
   \<and> loc_line (locateQuery html_bare (js ''<title>'')) = None
   \<and> \<not> located_by_query html_bare (js ''<title>'')
         (hd (check_title (example_platform doc_bare) html_bare doc_bare []))"
proof -
  let ?P = "example_platform doc_bare"
  have s: "RegExp_search ?P (locate_pattern ?P (Element (js ''HEAD'') [] [])) (js ''i'') html_bare = Found 6"
    by (rule bare_head_search)
  have l: "6 \<le> length html_bare" by (simp add: html_bare_def js_def)
  have la: "line_at html_bare 6 = 1" by (simp add: line_at_def line_breaks_def html_bare_def js_def)
  have ca: "column_at html_bare 6 = 7" by (simp add: column_at_def html_bare_def js_def)
  have q: "loc_line (locateQuery html_bare (js ''<title>'')) = None"
    using locateQuery_not_found [of html_bare "js ''<title>''"] bare_title_query
    by (simp add: empty_locator_def)
  show ?thesis
    using bare_title emitted_node_found(1,2) [OF l s] la ca q
    by (simp add: bare_title_finding located_by_query_def)
qed

text \<open>
  Claim C4, amended. Without a non-empty title text the title check emits the error
  \<open>title-missing\<close>; with a trimmed title shorter than 10 or longer than 60 it emits the
  warning \<open>title-length\<close>, whose message cites the length; otherwise the success
  \<open>title-ok\<close>. When there is no title node, the finding is located on the head node, by
  the by-node locator; the literal query \<^verbatim>\<open><title>\<close> locates it only when the document
  has no head node either. The title "Home" gives \<open>title-length\<close>, a warning that cites
  the length 4.
\<close>

theorem title_check:
  "(title_text doc = [] \<longrightarrow>
      (\<exists>f. check_title P html doc [] = [f] \<and> id_key f = js ''title-missing''
           \<and> severity f = Error))
   \<and> (title_text doc \<noteq> [] \<and> (length (title_text doc) < 10 \<or> 60 < length (title_text doc)) \<longrightarrow>
      (\<exists>f. check_title P html doc [] = [f] \<and> id_key f = js ''title-length''
           \<and> severity f = Warning
           \<and> message f = js ''Title length '' @ decimal (length (title_text doc))
                @ js '' (aim 10'' @ [8211] @ js ''60).''))
   \<and> (10 \<le> length (title_text doc) \<and> length (title_text doc) \<le> 60 \<longrightarrow>
      (\<exists>f. check_title P html doc [] = [f] \<and> id_key f = js ''title-ok''
           \<and> severity f = Success))
   \<and> (querySelector doc (hasTag ''title'') = None \<and> head doc = Some h \<longrightarrow>
      (\<exists>f. check_title P html doc [] = [f] \<and> id_key f = js ''title-missing''
           \<and> located_by_node P html h f))
   \<and> (querySelector doc (hasTag ''title'') = None \<and> head doc = None \<longrightarrow>
      (\<exists>f. check_title P html doc [] = [f] \<and> id_key f = js ''title-missing''
           \<and> located_by_query html (js ''<title>'') f))
   \<and> map (\<lambda>f. (id_key f, severity f, message f)) (check_title P html_home doc_home [])
       = [(js ''title-length'', Warning, js ''Title length 4 (aim 10'' @ [8211] @ js ''60).'')]"
proof -
  have n: "querySelector doc (hasTag ''title'') = None \<Longrightarrow> title_text doc = []"
    by (simp add: title_text_def orEmpty_def)
  have d4: "decimal 4 = js ''4''" by (simp add: decimal.simps js_def)
  have h: "length (title_text doc_home) = 4" by (simp add: home_title js_def)
  have ex: "map (\<lambda>f. (id_key f, severity f, message f)) (check_title P html_home doc_home [])
       = [(js ''title-length'', Warning, js ''Title length 4 (aim 10'' @ [8211] @ js ''60).'')]"
    unfolding check_title_cases h
    by (simp add: home_title emitted_fields d4) (simp add: js_def)
  show ?thesis
    using n emitted_by_node [of P html h] emitted_by_query [OF title_nonempty, of html P] ex
    by (auto simp: check_title_cases emitted_fields)
qed

theorem title_check_witness:
  "title_text doc_bare = []
   \<and> map id_key (check_title (example_platform doc_bare) html_bare doc_bare [])
       = [js ''title-missing'']
   \<and> title_text doc_home \<noteq> [] \<and> length (title_text doc_home) < 10
   \<and> map id_key (check_title (example_platform doc_home) html_home doc_home [])
       = [js ''title-length'']
   \<and> 10 \<le> length (title_text doc_welcome) \<and> length (title_text doc_welcome) \<le> 60
   \<and> map id_key (check_title (example_platform doc_welcome) html_welcome doc_welcome [])
       = [js ''title-ok'']
   \<and> querySelector doc_bare (hasTag ''title'') = None
   \<and> head doc_bare = Some (Element (js ''HEAD'') [] [])
   \<and> located_by_node (example_platform doc_bare) html_bare (Element (js ''HEAD'') [] [])
        (hd (check_title (example_platform doc_bare) html_bare doc_bare []))
   \<and> querySelector doc_headless (hasTag ''title'') = None \<and> head doc_headless = None
   \<and> located_by_query html_bare (js ''<title>'')
        (hd (check_title (example_platform doc_headless) html_bare doc_headless []))"
proof -
  have b: "title_text doc_bare = []" by (simp add: title_text_def bare_title orEmpty_def)
  have h: "title_text doc_home \<noteq> [] \<and> length (title_text doc_home) < 10"
    by (simp add: home_title js_def)
  have w: "10 \<le> length (title_text doc_welcome) \<and> length (title_text doc_welcome) \<le> 60"
    by (simp add: welcome_title js_def)
  have "\<exists>f. check_title (example_platform doc_bare) html_bare doc_bare [] = [f]
          \<and> id_key f = js ''title-missing''
          \<and> located_by_node (example_platform doc_bare) html_bare (Element (js ''HEAD'') [] []) f"
    using title_check [of doc_bare "example_platform doc_bare" html_bare
        "Element (js ''HEAD'') [] []"] bare_title bare_head
    by blast
  then have 1: "map id_key (check_title (example_platform doc_bare) html_bare doc_bare [])
       = [js ''title-missing'']
     \<and> located_by_node (example_platform doc_bare) html_bare (Element (js ''HEAD'') [] [])
        (hd (check_title (example_platform doc_bare) html_bare doc_bare []))"
    by auto
  have "\<exists>f. check_title (example_platform doc_home) html_home doc_home [] = [f]
          \<and> id_key f = js ''title-length''"
    using title_check [of doc_home "example_platform doc_home" html_home] h by blast
  then have 2: "map id_key (check_title (example_platform doc_home) html_home doc_home [])
       = [js ''title-length'']"
    by auto
  have "\<exists>f. check_title (example_platform doc_welcome) html_welcome doc_welcome [] = [f]
          \<and> id_key f = js ''title-ok''"
    using title_check [of doc_welcome "example_platform doc_welcome" html_welcome] w by blast
  then have 3: "map id_key (check_title (example_platform doc_welcome) html_welcome doc_welcome [])
       = [js ''title-ok'']"
    by auto
  have "\<exists>f. check_title (example_platform doc_headless) html_bare doc_headless [] = [f]
          \<and> located_by_query html_bare (js ''<title>'') f"
    using title_check [of doc_headless "example_platform doc_headless" html_bare]
      headless_title headless_head
    by blast
  then have 4: "located_by_query html_bare (js ''<title>'')
        (hd (check_title (example_platform doc_headless) html_bare doc_headless []))"
    by auto
  show ?thesis
    using b h w 1 2 3 4 bare_title bare_head headless_title headless_head by blast
qed

section \<open>Duplicate ids and the number of findings\<close>

lemma single_findings:
  "length (check_lang P html doc []) = 1"
  "length (check_title P html doc []) = 1"
  "length (check_meta_description P html doc []) = 1"
  "length (check_canonical P html doc []) = 1"
  "length (check_h1 P html doc []) = 1"
  "length (check_open_graph P html doc []) = 1"
  "length (check_twitter P html doc []) = 1"
  by (simp_all add: check_lang_def check_title_def check_meta_description_def check_canonical_def
      check_h1_def check_open_graph_def check_twitter_def Let_def push_def)

lemma dup_ids_single:
  assumes "check_dup_ids P html doc [] = Inr d"
  shows "length d = 1"
proof (cases "filter (\<lambda>(k, c). c > 1) (tally_ids (elements_of (documentElement doc)) [])")
  case Nil
  then show ?thesis using assms by (auto simp: check_dup_ids_def Let_def push_def)
next
  case (Cons kc rest)
  obtain k c where kc: "kc = (k, c)" by (cases kc)
  show ?thesis
    using Cons kc assms
    by (cases "querySelector_id P doc k") (auto simp: check_dup_ids_def Let_def push_def)
qed

lemma lang_first:
  "\<exists>f. check_lang P html doc [] = [f]
     \<and> (id_key f = js ''lang-missing'' \<or> id_key f = js ''lang-ok'')"
  by (simp add: check_lang_def Let_def push_def emitted_fields)

lemma audit_at_least_eight:
  assumes "audit_document P html doc = Inr fs"
  shows "8 \<le> length fs"
    and "id_key (hd fs) = js ''lang-missing'' \<or> id_key (hd fs) = js ''lang-ok''"
proof -
  obtain d where d: "check_dup_ids P html doc [] = Inr d"
    and fs: "fs = findings_before_dup_ids P html doc @ d"
    using assms by (auto simp: audit_document_sequence split: sum.splits)
  show "8 \<le> length fs"
    using dup_ids_single [OF d] single_findings [of P html doc]
    by (simp add: fs findings_before_dup_ids_def)
  obtain f where "check_lang P html doc [] = [f]"
    and "id_key f = js ''lang-missing'' \<or> id_key f = js ''lang-ok''"
    using lang_first [of P html doc] by blast
  then show "id_key (hd fs) = js ''lang-missing'' \<or> id_key (hd fs) = js ''lang-ok''"
    by (simp add: fs findings_before_dup_ids_def)
qed

lemma map_set_keys:
  "map fst (map_set m k v) = (if k \<in> set (map fst m) then map fst m else map fst m @ [k])"
proof (induction m)
  case Nil
  then show ?case by simp
next
  case (Cons p m)
  obtain k' v' where p: "p = (k', v')" by (cases p)
  show ?case
  proof (cases "k' = k")
    case True
    then show ?thesis by (simp add: p)
  next
    case False
    then show ?thesis using Cons by (simp add: p)
  qed
qed

lemma map_set_distinct: "distinct (map fst m) \<Longrightarrow> distinct (map fst (map_set m k v))"
  by (simp add: map_set_keys)

lemma map_of_map_set: "map_of (map_set m k v) = (map_of m)(k \<mapsto> v)"
  by (induction m) (auto simp: fun_eq_iff)

lemma tally_ids_distinct:
  "distinct (map fst m) \<Longrightarrow> distinct (map fst (tally_ids els m))"
  by (induction els arbitrary: m) (auto simp: map_set_distinct split: option.splits)

lemma tally_ids_count:
  "map_of (tally_ids els m) k =
     (if k \<in> set (id_values els) \<or> k \<in> dom (map_of m)
      then Some (count_list (id_values els) k + (case map_of m k of Some n \<Rightarrow> n | None \<Rightarrow> 0))
      else None)"
proof (induction els arbitrary: m)
  case Nil
  then show ?case by (auto simp: id_values_def split: option.splits)
next
  case (Cons e els)
  show ?case
  proof (cases "getAttribute e (js ''id'')")
    case None
    then show ?thesis using Cons [of m] by (simp add: id_values_def)
  next
    case (Some v)
    have iv: "id_values (e # els) = v # id_values els" using Some by (simp add: id_values_def)
    show ?thesis
      using Some Cons [of "map_set m v ((case map_get m v of Some n \<Rightarrow> n | None \<Rightarrow> 0) + 1)"]
      by (auto simp: iv map_of_map_set map_get_def split: option.splits)
  qed
qed

lemma tally_ids_entry:
  "(k, c) \<in> set (tally_ids els []) \<longleftrightarrow> k \<in> set (id_values els) \<and> c = count_list (id_values els) k"
proof -
  have d: "distinct (map fst (tally_ids els []))" by (simp add: tally_ids_distinct)
  have "(k, c) \<in> set (tally_ids els []) \<longleftrightarrow> map_of (tally_ids els []) k = Some c"
    using d by simp
  then show ?thesis by (auto simp: tally_ids_count)
qed

lemma dup_groups_count:
  "length (filter (\<lambda>(k, c). c > 1) (tally_ids els []))
     = card {k. count_list (id_values els) k > 1}"
proof -
  let ?t = "tally_ids els []"
  let ?d = "filter (\<lambda>(k, c). c > 1) ?t"
  have dist: "distinct (map fst ?d)"
    using tally_ids_distinct [of "[]" els] by (simp add: distinct_map_filter)
  then have "length ?d = card (set (map fst ?d))"
    using distinct_card [of "map fst ?d"] by simp
  moreover have "set (map fst ?d) = {k. count_list (id_values els) k > 1}"
  proof (rule set_eqI)
    fix k
    have "k \<in> set (map fst ?d) \<longleftrightarrow> (\<exists>c. (k, c) \<in> set ?t \<and> c > 1)" by force
    also have "\<dots> \<longleftrightarrow> k \<in> set (id_values els) \<and> count_list (id_values els) k > 1"
      by (auto simp: tally_ids_entry)
    also have "\<dots> \<longleftrightarrow> count_list (id_values els) k > 1"
      using count_list_0_iff [of "id_values els" k] by auto
    finally show "k \<in> set (map fst ?d) \<longleftrightarrow> k \<in> {k. count_list (id_values els) k > 1}" by simp
  qed
  ultimately show ?thesis by simp
qed

lemma dup_example:
  "check_dup_ids P html_dup doc_dup []
     = Inr [emitted P html_dup Warning (js ''dup-ids'') (js ''1 duplicate id(s) detected.'')
              (Some (Element (js ''P'') [(js ''id'', js ''dup'')] []))
              (Some (js ''Ensure IDs are unique per element.'')) None]"
proof -
  have t: "filter (\<lambda>(k, c). 1 < c) (tally_ids (elements_of (documentElement doc_dup)) [])
     = [(js ''dup'', 2)]"
    by (simp add: doc_dup_def getAttribute_def map_get_def js_def)
  have q: "querySelector_id P doc_dup (js ''dup'')
     = Inr (Some (Element (js ''P'') [(js ''id'', js ''dup'')] []))"
    by (simp add: querySelector_id_def endsCssString_def isCssNewline_def cssReplaced_def
        querySelector_def doc_dup_def getAttribute_def js_def)
  have d: "decimal (Suc 0) = js ''1''" by (simp add: decimal.simps js_def)
  show ?thesis
    using t by (simp add: check_dup_ids_def Let_def q push_def d) (simp add: js_def)
qed

lemma audit_raises_iff:
  "audit_document P html doc = Inl e \<longleftrightarrow> check_dup_ids P html doc [] = Inl e"
  by (simp add: audit_document_sequence split: sum.splits)

lemma id_values_find:
  assumes "k \<in> set (id_values els)"
  shows "\<exists>e. find (\<lambda>e. getAttribute e (js ''id'') = Some k) els = Some e"
proof -
  have "\<exists>e\<in>set els. getAttribute e (js ''id'') = Some k"
    using assms by (auto simp: id_values_def split: option.splits)
  then show ?thesis
    by (cases "find (\<lambda>e. getAttribute e (js ''id'') = Some k) els") (auto simp: find_None_iff)
qed

lemma dup_ids_plain:
  assumes "filter (\<lambda>(k, c). 1 < c) (tally_ids (elements_of (documentElement doc)) []) = (k, c) # rest"
    and "\<not> list_ex endsCssString k" and "\<not> list_ex cssReplaced k"
  shows "\<exists>e. find (\<lambda>e. getAttribute e (js ''id'') = Some k) (elements_of (documentElement doc))
               = Some e
           \<and> check_dup_ids P html doc []
               = Inr [emitted P html Warning (js ''dup-ids'')
                        (decimal (card {v. 1 < count_list (id_values (elements_of (documentElement doc))) v})
                           @ js '' duplicate id(s) detected.'')
                        (Some e) (Some (js ''Ensure IDs are unique per element.'')) None]"
proof -
  let ?els = "elements_of (documentElement doc)"
  have "(k, c) \<in> set (filter (\<lambda>(k, c). 1 < c) (tally_ids ?els []))"
    using assms(1) by simp
  then have "k \<in> set (id_values ?els)" by (simp add: tally_ids_entry)
  then obtain e where e: "find (\<lambda>e. getAttribute e (js ''id'') = Some k) ?els = Some e"
    using id_values_find by blast
  have dw: "dropWhile (\<lambda>c. \<not> endsCssString c) k = []"
    using assms(2) by (simp add: list_ex_iff)
  have q: "querySelector_id P doc k = Inr (Some e)"
    using assms(3) e by (simp add: querySelector_id_def dw querySelector_def)
  have n: "length (filter (\<lambda>(k, c). 1 < c) (tally_ids ?els []))
             = card {v. 1 < count_list (id_values ?els) v}"
    using dup_groups_count [of ?els] by simp
  have "check_dup_ids P html doc []
          = Inr [emitted P html Warning (js ''dup-ids'')
                   (decimal (length (filter (\<lambda>(k, c). 1 < c) (tally_ids ?els [])))
                      @ js '' duplicate id(s) detected.'')
                   (Some e) (Some (js ''Ensure IDs are unique per element.'')) None]"
    using assms(1) q by (simp add: check_dup_ids_def Let_def push_def)
  then show ?thesis using e n by simp
qed

lemma dup_ids_none:
  assumes "filter (\<lambda>(k, c). 1 < c) (tally_ids (elements_of (documentElement doc)) []) = []"
  shows "check_dup_ids P html doc []
           = Inr [emitted P html Success (js ''dup-ids-ok'') (js ''No duplicate ids found.'')
                    (Some (documentElement doc)) None None]"
  using assms by (simp add: check_dup_ids_def Let_def push_def)

lemma quote_dups:
  \<open>filter (\<lambda>(k, c). 1 < c) (tally_ids (elements_of (documentElement doc_quote)) [])
     = [(js ''a"b'', 2)]\<close>
  by (simp add: doc_quote_def getAttribute_def map_get_def js_def)

lemma quote_selector: \<open>querySelector_id P doc (js ''a"b'') = Inl SyntaxError\<close>
  by (simp add: querySelector_id_def endsCssString_def isCssNewline_def isAsciiAlnum_def js_def)

lemma quote_dup_ids: "check_dup_ids P html doc_quote out = Inl SyntaxError"
  using quote_dups by (simp add: check_dup_ids_def Let_def quote_selector)

text \<open>
  Claim C3 asks that an audit never raises. On the markup
  \<^verbatim>\<open><p id='a"b'></p><p id='a"b'></p>\<close> the duplicate-id check pastes the id into a
  selector, \<open>querySelector\<close> throws a \<open>SyntaxError\<close>, and the audit raises it. (That the
  by-node locator returns the empty locator when the pattern is refused or not found is
  \<open>locateElement_not_found\<close>; that an audit raises only there is \<open>audit_raises_iff\<close>.)
\<close>

theorem audit_raises:
  "runSeoA11yAudit (example_platform doc_quote) html_quote = Inl SyntaxError"
  by (simp add: runSeoA11yAudit_def example_platform_def audit_document_def Let_def quote_dup_ids)

text \<open>
  Claim C6 asks for one \<open>dup-ids\<close> warning whenever an id value occurs more than once. On
  the same markup the id \<^verbatim>\<open>a"b\<close> occurs twice and the check emits no finding: it
  raises. (For an id without a quotation mark, a backslash or a line break the claim
  holds: \<open>dup_ids_plain\<close>, \<open>dup_groups_count\<close>, \<open>dup_ids_none\<close>, \<open>dup_example\<close>.)
\<close>

theorem dup_ids_raises:
  \<open>filter (\<lambda>(k, c). 1 < c) (tally_ids (elements_of (documentElement doc_quote)) [])
     = [(js ''a"b'', 2)]
   \<and> check_dup_ids (example_platform doc_quote) html_quote doc_quote [] = Inl SyntaxError\<close>
  using quote_dups quote_dup_ids by simp

text \<open>
  Claim C9 asks for at least eight findings on every input. On the same markup there is
  no result at all. (When the audit returns, it returns at least eight findings and the
  first is \<open>lang-missing\<close> or \<open>lang-ok\<close>: \<open>audit_at_least_eight\<close>.)
\<close>

theorem audit_without_findings:
  "\<not> (\<exists>fs. runSeoA11yAudit (example_platform doc_quote) html_quote = Inr fs \<and> 8 \<le> length fs)"
  by (simp add: runSeoA11yAudit_def example_platform_def audit_document_def Let_def quote_dup_ids)

end
